theory Spec2Isabelle
  imports Main "HOL-Library.Word"
begin

section \<open>The HNS wrapper (package hns): data model\<close>

text \<open>
  \<open>time.Duration\<close> is a signed 64-bit count; \<open>delay *= 2\<close> wraps around, and
  comparisons are signed (\<open><s\<close>).
\<close>

type_synonym duration = "64 word"

text \<open>
  The fields of \<open>hcsshim.HNSNetwork\<close> that package hns reads. \<open>Id\<close> and \<open>Name\<close>
  carry a suffix because HOL already has constants of those names.
\<close>

record HNSNetwork =
  Id_hns :: string
  Name_hns :: string
  NetworkAdapterName :: string

text \<open>
  Go's \<open>error\<close> values as they occur in package hns: an error produced by a collaborator
  (hcsshim, win_networking, encoding/json), known by its message, or the package's own
  wrapper \<open>recoverableError{inner}\<close>. The type assertion
  \<open>err.(*recoverableError)\<close> is the case distinction on this datatype.
\<close>

datatype error = PlainError string | recoverableError (inner: error)

fun Error :: "error \<Rightarrow> string" where
  "Error (PlainError msg) = msg"
| "Error (recoverableError e) = Error e"

subsection \<open>The collaborators\<close>

text \<open>
  Every call that leaves the package is recorded, in order, with its arguments.
\<close>

datatype call =
    NetworkRequest string string string
  | ListNetworkRequest string string string
  | WaitForIP string
  | SleepCall duration

text \<open>
  The world the package runs in: the calls made so far and the reading of the monotonic
  clock, in the unit in which durations are counted.
\<close>

record world =
  calls :: "call list"
  now :: nat

text \<open>
  The behaviour of the collaborators is a parameter: what each call answers, given the
  calls made before it, and how long it takes. A failing call answers with the message
  of its error. \<open>took\<close> of a \<open>SleepCall\<close> is the time the sleep takes beyond the
  duration asked for. \<open>unicodeToLower\<close> is \<open>strings.Map(unicode.ToLower, s)\<close>, the
  lower-casing of a string by the case tables of Go's package unicode.
\<close>

record env =
  networkReply :: "call list \<Rightarrow> string \<Rightarrow> string \<Rightarrow> string \<Rightarrow> string + HNSNetwork"
  listReply :: "call list \<Rightarrow> string \<Rightarrow> string \<Rightarrow> string \<Rightarrow> string + HNSNetwork list"
  waitReply :: "call list \<Rightarrow> string \<Rightarrow> string option"
  jsonMarshal :: "HNSNetwork \<Rightarrow> string + string"
  unicodeToLower :: "string \<Rightarrow> string"
  took :: "call list \<Rightarrow> call \<Rightarrow> nat"

text \<open>
  The time a call takes: what the environment says and, for \<open>time.Sleep(d)\<close>, the
  duration asked for. Sleep pauses for at least \<open>d\<close>; a negative or zero duration
  returns immediately.
\<close>

definition asked :: "call \<Rightarrow> nat" where
  "asked c = (case c of SleepCall d \<Rightarrow> (if 0 <s d then nat (sint d) else 0) | _ \<Rightarrow> 0)"

definition record_call :: "env \<Rightarrow> call \<Rightarrow> world \<Rightarrow> world" where
  "record_call E c w = \<lparr>calls = calls w @ [c], now = now w + asked c + took E (calls w) c\<rparr>"

text \<open>The world after a sequence of calls.\<close>

definition after :: "env \<Rightarrow> call list \<Rightarrow> world \<Rightarrow> world" where
  "after E cs w = foldl (\<lambda>w' c. record_call E c w') w cs"

text \<open>\<open>hcsshim.HNSNetworkRequest(method, path, request)\<close>\<close>

definition HNSNetworkRequest ::
  "env \<Rightarrow> string \<Rightarrow> string \<Rightarrow> string \<Rightarrow> world \<Rightarrow> (error + HNSNetwork) \<times> world" where
  "HNSNetworkRequest E method path request w =
     (case networkReply E (calls w) method path request of
        Inl msg \<Rightarrow> (Inl (PlainError msg), record_call E (NetworkRequest method path request) w)
      | Inr net \<Rightarrow> (Inr net, record_call E (NetworkRequest method path request) w))"

text \<open>\<open>hcsshim.HNSListNetworkRequest(method, path, request)\<close>\<close>

definition HNSListNetworkRequest ::
  "env \<Rightarrow> string \<Rightarrow> string \<Rightarrow> string \<Rightarrow> world \<Rightarrow> (error + HNSNetwork list) \<times> world" where
  "HNSListNetworkRequest E method path request w =
     (case listReply E (calls w) method path request of
        Inl msg \<Rightarrow> (Inl (PlainError msg), record_call E (ListNetworkRequest method path request) w)
      | Inr nets \<Rightarrow> (Inr nets, record_call E (ListNetworkRequest method path request) w))"

text \<open>
  \<open>win_networking.WaitForValidIPReacquisition(adapter)\<close>: \<open>None\<close> is Go's nil error.
\<close>

definition WaitForValidIPReacquisition ::
  "env \<Rightarrow> string \<Rightarrow> world \<Rightarrow> error option \<times> world" where
  "WaitForValidIPReacquisition E adapter w =
     (case waitReply E (calls w) adapter of
        Some msg \<Rightarrow> (Some (PlainError msg), record_call E (WaitForIP adapter) w)
      | None \<Rightarrow> (None, record_call E (WaitForIP adapter) w))"

text \<open>\<open>time.Sleep(d)\<close>\<close>

definition Sleep :: "env \<Rightarrow> duration \<Rightarrow> world \<Rightarrow> world" where
  "Sleep E d w = record_call E (SleepCall d) w"

text \<open>
  \<open>time.Since(start)\<close> on the monotonic clock; the result saturates at the largest
  duration.
\<close>

definition Since :: "nat \<Rightarrow> world \<Rightarrow> duration" where
  "Since start w =
     (if now w - start < 2 ^ 63 then of_nat (now w - start) else 2 ^ 63 - 1)"

subsection \<open>Strings\<close>

text \<open>
  \<open>strings.ToLower(s)\<close>. On a string of ASCII bytes (all below \<open>utf8.RuneSelf\<close>, 128)
  the letters A to Z are mapped to a to z and every other byte is kept. A string with
  any other byte is lower-cased rune by rune with the case tables of package unicode,
  which are not part of this repository: that mapping is the parameter
  \<open>unicodeToLower\<close> of the environment.
\<close>

definition isASCII :: "string \<Rightarrow> bool" where
  "isASCII s = list_all (\<lambda>c. (of_char c :: nat) < 128) s"

definition toLowerByte :: "char \<Rightarrow> char" where
  "toLowerByte c =
     (if (65::nat) \<le> of_char c \<and> of_char c \<le> (90::nat)
      then char_of (of_char c + (32::nat)) else c)"

definition ToLower :: "env \<Rightarrow> string \<Rightarrow> string" where
  "ToLower E s = (if isASCII s then map toLowerByte s else unicodeToLower E s)"

fun HasPrefix :: "string \<Rightarrow> string \<Rightarrow> bool" where
  "HasPrefix s [] = True"
| "HasPrefix [] (p # ps) = False"
| "HasPrefix (c # cs) (p # ps) = (c = p \<and> HasPrefix cs ps)"

text \<open>\<open>strings.Contains(s, substr)\<close>: \<open>substr\<close> occurs in \<open>s\<close> as a contiguous run.\<close>

fun Contains :: "string \<Rightarrow> string \<Rightarrow> bool" where
  "Contains [] substr = (substr = [])"
| "Contains (c # cs) substr = (HasPrefix (c # cs) substr \<or> Contains cs substr)"

subsection \<open>Constants of package common\<close>

text \<open>
  Package common declares the retry delay as \<open>5 * 1000\<close> and the timeout as
  \<open>90 * 1000\<close>, in milliseconds; \<open>CreateHNSNetwork\<close> passes them to \<open>time.Sleep\<close> and
  compares them with \<open>time.Since\<close> as they are. The clock of the model counts in the
  unit of these constants. The properties of the retry loop are stated for any delay
  and timeout, and instantiated with these two.
\<close>

definition CreateHNSNetworkInitialRetryDelay :: duration where
  "CreateHNSNetworkInitialRetryDelay = 5 * 1000"

definition CreateHNSNetworkTimeout :: duration where
  "CreateHNSNetworkTimeout = 90 * 1000"

definition HNSTransparentInterfaceName :: string where
  "HNSTransparentInterfaceName = ''vEthernet (HNSTransparent)''"

section \<open>The HNS wrapper: operations\<close>

definition ListHNSNetworks :: "env \<Rightarrow> world \<Rightarrow> (error + HNSNetwork list) \<times> world" where
  "ListHNSNetworks E w =
     (case HNSListNetworkRequest E ''GET'' '''' '''' w of
        (Inl err, w1) \<Rightarrow> (Inl err, w1)
      | (Inr nets, w1) \<Rightarrow> (Inr nets, w1))"

definition GetHNSNetwork :: "env \<Rightarrow> string \<Rightarrow> world \<Rightarrow> (error + HNSNetwork) \<times> world" where
  "GetHNSNetwork E hnsID w =
     (case HNSNetworkRequest E ''GET'' hnsID '''' w of
        (Inl err, w1) \<Rightarrow> (Inl err, w1)
      | (Inr net, w1) \<Rightarrow> (Inr net, w1))"

text \<open>
  \<open>GetHNSNetworkByName\<close> returns a pair (network, error) in which both may be nil:
  the result is an error, or an optional network.
\<close>

definition GetHNSNetworkByName ::
  "env \<Rightarrow> string \<Rightarrow> world \<Rightarrow> (error + HNSNetwork option) \<times> world" where
  "GetHNSNetworkByName E name w =
     (case HNSListNetworkRequest E ''GET'' '''' '''' w of
        (Inl err, w1) \<Rightarrow> (Inl err, w1)
      | (Inr nets, w1) \<Rightarrow> (Inr (find (\<lambda>n. Name_hns n = name) nets), w1))"

text \<open>
  The loop of \<open>DeleteHNSNetwork\<close> that looks for another network on the same adapter.
\<close>

fun adapterStillInUse :: "HNSNetwork \<Rightarrow> HNSNetwork list \<Rightarrow> bool" where
  "adapterStillInUse toDelete [] = False"
| "adapterStillInUse toDelete (network # networks) =
     (if Id_hns network \<noteq> Id_hns toDelete \<and>
         NetworkAdapterName network = NetworkAdapterName toDelete
      then True
      else adapterStillInUse toDelete networks)"

definition DeleteHNSNetwork :: "env \<Rightarrow> string \<Rightarrow> world \<Rightarrow> error option \<times> world" where
  "DeleteHNSNetwork E hnsID w =
     (case GetHNSNetwork E hnsID w of
        (Inl err, w1) \<Rightarrow> (Some err, w1)
      | (Inr toDelete, w1) \<Rightarrow>
          (case ListHNSNetworks E w1 of
             (Inl err, w2) \<Rightarrow> (Some err, w2)
           | (Inr networks, w2) \<Rightarrow>
               (case HNSNetworkRequest E ''DELETE'' hnsID '''' w2 of
                  (Inl err, w3) \<Rightarrow> (Some err, w3)
                | (Inr _, w3) \<Rightarrow>
                    if \<not> adapterStillInUse toDelete networks
                    then (case WaitForValidIPReacquisition E (NetworkAdapterName toDelete) w3 of
                            (Some err, w4) \<Rightarrow> (Some err, w4)
                          | (None, w4) \<Rightarrow> (None, w4))
                    else (None, w3))))"

definition tryCreateHNSNetwork :: "env \<Rightarrow> string \<Rightarrow> world \<Rightarrow> (error + string) \<times> world" where
  "tryCreateHNSNetwork E config w =
     (case HNSNetworkRequest E ''POST'' '''' config w of
        (Inl err, w1) \<Rightarrow>
          (let errMsg = ToLower E (Error err) in
           if Contains errMsg ''hns failed'' \<and> Contains errMsg ''unspecified error''
           then (Inl (recoverableError err), w1)
           else (Inl err, w1))
      | (Inr response, w1) \<Rightarrow>
          (case WaitForValidIPReacquisition E HNSTransparentInterfaceName w1 of
             (Some err, w2) \<Rightarrow>
               (case DeleteHNSNetwork E (Id_hns response) w2 of
                  (Some deleteErr, w3) \<Rightarrow> (Inl deleteErr, w3)
                | (None, w3) \<Rightarrow> (Inl (recoverableError err), w3))
           | (None, w2) \<Rightarrow> (Inr (Id_hns response), w2)))"

text \<open>
  The \<open>for\<close> loop of \<open>CreateHNSNetwork\<close>, with the loop variables \<open>delay\<close> and the
  world, and \<open>creatingStart\<close> and the timeout as parameters. Nothing in the loop bounds
  the number of rounds, so the result is optional: \<open>None\<close> is a loop that never ends.
\<close>

partial_function (option) CreateHNSNetwork_loop ::
  "env \<Rightarrow> string \<Rightarrow> nat \<Rightarrow> duration \<Rightarrow> duration \<Rightarrow> world \<Rightarrow> ((error + string) \<times> world) option" where
  "CreateHNSNetwork_loop E configBytes creatingStart timeout delay w =
     (case tryCreateHNSNetwork E configBytes w of
        (Inl err, w1) \<Rightarrow>
          (case err of
             recoverableError inner_err \<Rightarrow>
               if Since creatingStart w1 <s timeout
               then CreateHNSNetwork_loop E configBytes creatingStart timeout (delay * 2)
                      (Sleep E delay w1)
               else Some (Inl inner_err, w1)
           | PlainError msg \<Rightarrow> Some (Inl err, w1))
      | (Inr hnsID, w1) \<Rightarrow> Some (Inr hnsID, w1))"

definition CreateHNSNetwork ::
  "env \<Rightarrow> HNSNetwork \<Rightarrow> world \<Rightarrow> ((error + string) \<times> world) option" where
  "CreateHNSNetwork E configuration w =
     (case jsonMarshal E configuration of
        Inl msg \<Rightarrow> Some (Inl (PlainError msg), w)
      | Inr configBytes \<Rightarrow>
          CreateHNSNetwork_loop E configBytes (now w) CreateHNSNetworkTimeout
            CreateHNSNetworkInitialRetryDelay w)"

text \<open>The durations of the \<open>time.Sleep\<close> calls in a sequence of calls, in order.\<close>

fun sleeps :: "call list \<Rightarrow> duration list" where
  "sleeps [] = []"
| "sleeps (SleepCall d # cs) = d # sleeps cs"
| "sleeps (c # cs) = sleeps cs"

subsection \<open>Concrete collaborators\<close>

text \<open>
  Environments on which the operations are run: a network on adapter Ethernet0, the
  message HNS gives while the adapter is being reinitialised, and collaborators that
  answer at once.
\<close>

definition net1 :: HNSNetwork where
  "net1 = \<lparr>Id_hns = ''net-1'', Name_hns = ''ContrailRootNetwork'',
            NetworkAdapterName = ''Ethernet0''\<rparr>"

definition net2 :: HNSNetwork where
  "net2 = \<lparr>Id_hns = ''net-2'', Name_hns = ''Contrail:tenant:net'',
            NetworkAdapterName = ''Ethernet0''\<rparr>"

definition unspecified_msg :: string where
  "unspecified_msg = ''HNS failed with error : Unspecified error''"

definition w0 :: world where
  "w0 = \<lparr>calls = [], now = 0\<rparr>"

definition is_POST :: "call \<Rightarrow> bool" where
  "is_POST c = (case c of NetworkRequest method path request \<Rightarrow> method = ''POST'' | _ \<Rightarrow> False)"

text \<open>Every request succeeds; the only network is \<open>net1\<close>.\<close>

definition healthy :: env where
  "healthy =
     \<lparr>networkReply = (\<lambda>cs method path request. Inr net1),
      listReply = (\<lambda>cs method path request. Inr [net1]),
      waitReply = (\<lambda>cs adapter. None),
      jsonMarshal = (\<lambda>n. Inr ''{}''),
      unicodeToLower = (\<lambda>s. s),
      took = (\<lambda>cs c. 0)\<rparr>"

text \<open>The first \<open>n\<close> POST requests fail with the transient message.\<close>

definition flaky :: "nat \<Rightarrow> env" where
  "flaky n = healthy
     \<lparr>networkReply := (\<lambda>cs method path request.
        if method = ''POST'' \<and> length (filter is_POST cs) < n
        then Inl unspecified_msg else Inr net1)\<rparr>"

text \<open>Every POST request fails with the transient message.\<close>

definition failing :: env where
  "failing = healthy
     \<lparr>networkReply := (\<lambda>cs method path request.
        if method = ''POST'' then Inl unspecified_msg else Inr net1)\<rparr>"

text \<open>Every POST request is refused with another message.\<close>

definition denied :: env where
  "denied = healthy
     \<lparr>networkReply := (\<lambda>cs method path request.
        if method = ''POST'' then Inl ''Access is denied'' else Inr net1)\<rparr>"

text \<open>
  A message with a letter outside ASCII: U+0130, capital I with dot above, whose UTF-8
  bytes are 196 and 176 and whose lower case in Go's tables is the letter i.
  \<open>lowerDottedI\<close> is the Unicode lower-casing on strings whose only bytes outside ASCII
  are those of U+0130.
\<close>

definition dotted_msg :: string where
  "dotted_msg =
     ''HNS FA'' @ [char_of (196::nat), char_of (176::nat)] @
     ''LED with error : Unspecified error''"

fun lowerDottedI :: "string \<Rightarrow> string" where
  "lowerDottedI [] = []"
| "lowerDottedI [c] = [toLowerByte c]"
| "lowerDottedI (c # d # cs) =
     (if of_char c = (196::nat) \<and> of_char d = (176::nat)
      then CHR ''i'' # lowerDottedI cs
      else toLowerByte c # lowerDottedI (d # cs))"

text \<open>Every POST request fails with that message.\<close>

definition dotted :: env where
  "dotted = healthy
     \<lparr>networkReply := (\<lambda>cs method path request.
        if method = ''POST'' then Inl dotted_msg else Inr net1),
      unicodeToLower := lowerDottedI\<rparr>"

text \<open>The adapter never gets its address back.\<close>

definition unplugged :: env where
  "unplugged = healthy \<lparr>waitReply := (\<lambda>cs adapter. Some ''timeout'')\<rparr>"

text \<open>
  The adapter never gets its address back, and after the POST request HNS answers every
  request for a single network, GET and DELETE, with an error.
\<close>

definition busy :: env where
  "busy = healthy
     \<lparr>networkReply := (\<lambda>cs method path request.
        if method = ''POST'' then Inr net1 else Inl ''HNS is busy''),
      waitReply := (\<lambda>cs adapter. Some ''timeout'')\<rparr>"

text \<open>A second network uses the same adapter.\<close>

definition shared :: env where
  "shared = healthy \<lparr>listReply := (\<lambda>cs method path request. Inr [net1, net2])\<rparr>"

text \<open>HNS has no network: a lookup by Id fails, the list is empty.\<close>

definition vacant :: env where
  "vacant = healthy
     \<lparr>networkReply := (\<lambda>cs method path request. Inl ''The network was not found''),
      listReply := (\<lambda>cs method path request. Inr [])\<rparr>"

section \<open>The driver orchestrator\<close>

text \<open>
  Modelled from the spec: the orchestrator's operations \<open>CreateNetwork\<close>,
  \<open>DeleteNetwork\<close> and \<open>Leave\<close> (package driver_core and the plugin server that calls
  it) are not among the source files; only their tests are. The definitions of this
  section follow sections 3, 4.1 and 7 of the specification; the result of \<open>Leave\<close>
  is the one its test expects.
\<close>

text \<open>The error taxonomy of section 7.\<close>

datatype core_error = InvalidRequest | NotFound | BackendError string

record Subnet =
  CIDR :: string
  DefaultGateway :: string

text \<open>A virtual network has one or more subnets.\<close>

record VirtualNetwork =
  tenantName :: string
  networkName :: string
  firstSubnet :: Subnet
  moreSubnets :: "Subnet list"

record ManagedNetwork =
  localNetworkID :: string
  sourceVirtualNetwork :: VirtualNetwork

record ManagedEndpoint =
  localEndpointID :: string
  ipAddress :: string
  macAddress :: string
  gateway :: string

text \<open>The calls that reach a backend port, in order.\<close>

datatype port_call =
    Controller_GetNetwork string string
  | LocalNetworkRepository_Create string Subnet
  | LocalNetworkRepository_Delete string

text \<open>
  The backend ports are parameters: what each call answers, given the calls made
  before it.
\<close>

record ports =
  controllerGetNetwork :: "port_call list \<Rightarrow> string \<Rightarrow> string \<Rightarrow> core_error + VirtualNetwork"
  localNetworkCreate :: "port_call list \<Rightarrow> string \<Rightarrow> Subnet \<Rightarrow> core_error + string"
  localNetworkDelete :: "port_call list \<Rightarrow> string \<Rightarrow> core_error option"

text \<open>
  The state the orchestrator owns: the two mappings of section 3, and the record of the
  port calls made.
\<close>

record orchestrator =
  managedNetworks :: "string \<rightharpoonup> ManagedNetwork"
  managedEndpoints :: "string \<rightharpoonup> ManagedEndpoint"
  portCalls :: "port_call list"

record CreateNetworkRequest =
  runtimeNetworkID :: string
  requestOptions :: "string \<rightharpoonup> string"
  subnetHint :: string

text \<open>
  Modelled from the spec: \<open>CreateNetwork\<close>, section 4.1, steps (1) to (4): validate
  that tenant and network name are in the option map, resolve the virtual network,
  create the local network with the first subnet, then record the mapping.
\<close>

definition CreateNetwork ::
  "ports \<Rightarrow> CreateNetworkRequest \<Rightarrow> orchestrator \<Rightarrow> core_error option \<times> orchestrator" where
  "CreateNetwork P req s =
     (case requestOptions req ''tenant'' of
        None \<Rightarrow> (Some InvalidRequest, s)
      | Some tenant \<Rightarrow>
          (case requestOptions req ''network'' of
             None \<Rightarrow> (Some InvalidRequest, s)
           | Some network \<Rightarrow>
               (let s1 = s\<lparr>portCalls := portCalls s @ [Controller_GetNetwork tenant network]\<rparr>
                in case controllerGetNetwork P (portCalls s) tenant network of
                     Inl err \<Rightarrow> (Some err, s1)
                   | Inr vn \<Rightarrow>
                       (let s2 = s1\<lparr>portCalls := portCalls s1 @
                                   [LocalNetworkRepository_Create (runtimeNetworkID req)
                                      (firstSubnet vn)]\<rparr>
                        in case localNetworkCreate P (portCalls s1) (runtimeNetworkID req)
                                  (firstSubnet vn) of
                             Inl err \<Rightarrow> (Some err, s2)
                           | Inr localID \<Rightarrow>
                               (None,
                                s2\<lparr>managedNetworks := (managedNetworks s2)
                                     (runtimeNetworkID req \<mapsto>
                                        \<lparr>localNetworkID = localID,
                                         sourceVirtualNetwork = vn\<rparr>)\<rparr>)))))"

text \<open>
  Modelled from the spec: \<open>DeleteNetwork\<close>, section 4.1: no mapping is success;
  otherwise the local network is deleted, \<open>NotFound\<close> from the backend is ignored, and
  the mapping is dropped. By section 7 a delete path goes through all its steps and
  then returns the fatal error, if there was one.
\<close>

definition DeleteNetwork ::
  "ports \<Rightarrow> string \<Rightarrow> orchestrator \<Rightarrow> core_error option \<times> orchestrator" where
  "DeleteNetwork P runtimeID s =
     (case managedNetworks s runtimeID of
        None \<Rightarrow> (None, s)
      | Some mn \<Rightarrow>
          (let s1 = s\<lparr>portCalls := portCalls s @
                        [LocalNetworkRepository_Delete (localNetworkID mn)]\<rparr>;
               s2 = s1\<lparr>managedNetworks := (managedNetworks s1)(runtimeID := None)\<rparr>
           in case localNetworkDelete P (portCalls s) (localNetworkID mn) of
                None \<Rightarrow> (None, s2)
              | Some NotFound \<Rightarrow> (None, s2)
              | Some err \<Rightarrow> (Some err, s2)))"


subsection \<open>Concrete ports and states\<close>

definition test_net :: VirtualNetwork where
  "test_net = \<lparr>tenantName = ''agatka'', networkName = ''test_net'',
                firstSubnet = \<lparr>CIDR = ''1.2.3.4/24'', DefaultGateway = ''1.2.3.1''\<rparr>,
                moreSubnets = []\<rparr>"

definition sim_ports :: ports where
  "sim_ports =
     \<lparr>controllerGetNetwork = (\<lambda>cs tenant network.
        if tenant = ''agatka'' \<and> network = ''test_net'' then Inr test_net else Inl NotFound),
      localNetworkCreate = (\<lambda>cs runtimeID subnet. Inr ''local-1''),
      localNetworkDelete = (\<lambda>cs localID. Some NotFound)\<rparr>"

definition fresh :: orchestrator where
  "fresh = \<lparr>managedNetworks = Map.empty, managedEndpoints = Map.empty, portCalls = []\<rparr>"

definition one_network :: orchestrator where
  "one_network = fresh\<lparr>managedNetworks :=
     [''MyAwesomeNet'' \<mapsto> \<lparr>localNetworkID = ''local-1'', sourceVirtualNetwork = test_net\<rparr>]\<rparr>"


section \<open>The HNS wrapper: supporting lemmas\<close>

text \<open>\<open>Contains\<close> is the substring test.\<close>

lemma HasPrefix_iff: "HasPrefix s p \<longleftrightarrow> (\<exists>q. s = p @ q)"
  by (induction s p rule: HasPrefix.induct) auto

lemma Contains_iff: "Contains s substr \<longleftrightarrow> (\<exists>p q. s = p @ substr @ q)"
proof (induction s)
  case Nil
  show ?case by simp
next
  case (Cons c cs)
  show ?case
  proof
    assume "Contains (c # cs) substr"
    then consider "HasPrefix (c # cs) substr" | "Contains cs substr"
      by auto
    then show "\<exists>p q. c # cs = p @ substr @ q"
    proof cases
      case 1
      then obtain q where "c # cs = substr @ q"
        using HasPrefix_iff by blast
      then have "c # cs = [] @ substr @ q" by simp
      then show ?thesis by blast
    next
      case 2
      then obtain p q where "cs = p @ substr @ q"
        using Cons.IH by blast
      then have "c # cs = (c # p) @ substr @ q" by simp
      then show ?thesis by blast
    qed
  next
    assume "\<exists>p q. c # cs = p @ substr @ q"
    then obtain p q where pq: "c # cs = p @ substr @ q"
      by blast
    show "Contains (c # cs) substr"
    proof (cases p)
      case Nil
      with pq have "HasPrefix (c # cs) substr"
        using HasPrefix_iff by auto
      then show ?thesis by simp
    next
      case (Cons a p')
      with pq have "cs = p' @ substr @ q" by simp
      then have "Contains cs substr"
        using Cons.IH by blast
      then show ?thesis by simp
    qed
  qed
qed

lemma after_simps [simp]:
  "after E [] w = w"
  "after E (c # cs) w = after E cs (record_call E c w)"
  by (simp_all add: after_def)

lemma calls_record_call [simp]: "calls (record_call E c w) = calls w @ [c]"
  by (simp add: record_call_def)

lemma now_record_call: "now (record_call E c w) = now w + asked c + took E (calls w) c"
  by (simp add: record_call_def)

lemma adapterStillInUse_iff:
  "adapterStillInUse toDelete networks \<longleftrightarrow>
     (\<exists>n \<in> set networks. Id_hns n \<noteq> Id_hns toDelete \<and>
        NetworkAdapterName n = NetworkAdapterName toDelete)"
  by (induction networks) auto

lemma HNSNetworkRequest_eq:
  "HNSNetworkRequest E m p r w =
     (map_sum PlainError (\<lambda>n. n) (networkReply E (calls w) m p r),
      after E [NetworkRequest m p r] w)"
  by (simp add: HNSNetworkRequest_def split: sum.splits)

lemma HNSListNetworkRequest_eq:
  "HNSListNetworkRequest E m p r w =
     (map_sum PlainError (\<lambda>n. n) (listReply E (calls w) m p r),
      after E [ListNetworkRequest m p r] w)"
  by (simp add: HNSListNetworkRequest_def split: sum.splits)

lemma WaitForValidIPReacquisition_eq:
  "WaitForValidIPReacquisition E a w =
     (map_option PlainError (waitReply E (calls w) a), after E [WaitForIP a] w)"
  by (simp add: WaitForValidIPReacquisition_def split: option.splits)

lemma GetHNSNetwork_eq: "GetHNSNetwork E hnsID w = HNSNetworkRequest E ''GET'' hnsID '''' w"
  by (simp add: GetHNSNetwork_def split: prod.splits sum.splits)

lemma ListHNSNetworks_eq: "ListHNSNetworks E w = HNSListNetworkRequest E ''GET'' '''' '''' w"
  by (simp add: ListHNSNetworks_def split: prod.splits sum.splits)

lemma after_append: "after E (xs @ ys) w = after E ys (after E xs w)"
  by (simp add: after_def)

lemma calls_after [simp]: "calls (after E cs w) = calls w @ cs"
  by (induction cs arbitrary: w) simp_all

lemma now_after: "now w \<le> now (after E cs w)"
proof (induction cs arbitrary: w)
  case Nil
  show ?case by simp
next
  case (Cons c cs)
  have "now w \<le> now (record_call E c w)" by (simp add: now_record_call)
  also have "\<dots> \<le> now (after E cs (record_call E c w))" by (rule Cons.IH)
  finally show ?case by simp
qed

lemma DeleteHNSNetwork_cases:
  fixes E hnsID w
  defines "g \<equiv> NetworkRequest ''GET'' hnsID ''''"
    and "l \<equiv> ListNetworkRequest ''GET'' '''' ''''"
    and "d \<equiv> NetworkRequest ''DELETE'' hnsID ''''"
  shows "(\<exists>msg. DeleteHNSNetwork E hnsID w = (Some (PlainError msg), after E [g] w))
       \<or> (\<exists>msg. DeleteHNSNetwork E hnsID w = (Some (PlainError msg), after E [g, l] w))
       \<or> (\<exists>msg. DeleteHNSNetwork E hnsID w = (Some (PlainError msg), after E [g, l, d] w))
       \<or> DeleteHNSNetwork E hnsID w = (None, after E [g, l, d] w)
       \<or> (\<exists>msg a. DeleteHNSNetwork E hnsID w = (Some (PlainError msg), after E [g, l, d, WaitForIP a] w))
       \<or> (\<exists>a. DeleteHNSNetwork E hnsID w = (None, after E [g, l, d, WaitForIP a] w))"
proof (cases "networkReply E (calls w) ''GET'' hnsID ''''")
  case (Inl msg)
  then have "DeleteHNSNetwork E hnsID w = (Some (PlainError msg), after E [g] w)"
    by (simp add: DeleteHNSNetwork_def GetHNSNetwork_eq HNSNetworkRequest_eq g_def)
  then show ?thesis by blast
next
  case get: (Inr toDelete)
  show ?thesis
  proof (cases "listReply E (calls w @ [g]) ''GET'' '''' ''''")
    case (Inl msg)
    with get have "DeleteHNSNetwork E hnsID w = (Some (PlainError msg), after E [g, l] w)"
      by (simp add: DeleteHNSNetwork_def GetHNSNetwork_eq ListHNSNetworks_eq
          HNSNetworkRequest_eq HNSListNetworkRequest_eq g_def l_def)
    then show ?thesis by blast
  next
    case list: (Inr networks)
    show ?thesis
    proof (cases "networkReply E (calls w @ [g, l]) ''DELETE'' hnsID ''''")
      case (Inl msg)
      with get list have "DeleteHNSNetwork E hnsID w = (Some (PlainError msg), after E [g, l, d] w)"
        by (simp add: DeleteHNSNetwork_def GetHNSNetwork_eq ListHNSNetworks_eq
            HNSNetworkRequest_eq HNSListNetworkRequest_eq g_def l_def d_def)
      then show ?thesis by blast
    next
      case del: (Inr resp)
      show ?thesis
      proof (cases "adapterStillInUse toDelete networks")
        case True
        with get list del have "DeleteHNSNetwork E hnsID w = (None, after E [g, l, d] w)"
          by (simp add: DeleteHNSNetwork_def GetHNSNetwork_eq ListHNSNetworks_eq
              HNSNetworkRequest_eq HNSListNetworkRequest_eq g_def l_def d_def)
        then show ?thesis by blast
      next
        case False
        with get list del have "DeleteHNSNetwork E hnsID w =
            (map_option PlainError (waitReply E (calls w @ [g, l, d]) (NetworkAdapterName toDelete)),
             after E [g, l, d, WaitForIP (NetworkAdapterName toDelete)] w)"
          by (simp add: DeleteHNSNetwork_def GetHNSNetwork_eq ListHNSNetworks_eq
              HNSNetworkRequest_eq HNSListNetworkRequest_eq WaitForValidIPReacquisition_eq
              g_def l_def d_def split: option.splits)
        then show ?thesis
          by (cases "waitReply E (calls w @ [g, l, d]) (NetworkAdapterName toDelete)") auto
      qed
    qed
  qed
qed

lemma sleeps_append: "sleeps (xs @ ys) = sleeps xs @ sleeps ys"
  by (induction xs rule: sleeps.induct) simp_all

lemma DeleteHNSNetwork_sleeps:
  "sleeps (calls (snd (DeleteHNSNetwork E hnsID w))) = sleeps (calls w)"
  using DeleteHNSNetwork_cases [where E=E and hnsID=hnsID and w=w]
  by (elim disjE exE) (simp_all add: sleeps_append)

lemma DeleteHNSNetwork_now: "now w \<le> now (snd (DeleteHNSNetwork E hnsID w))"
  using DeleteHNSNetwork_cases [where E=E and hnsID=hnsID and w=w]
  by (elim disjE exE) (simp_all only: snd_conv now_after)

lemma DeleteHNSNetwork_error_plain:
  "fst (DeleteHNSNetwork E hnsID w) = Some e \<Longrightarrow> is_PlainError e"
  using DeleteHNSNetwork_cases [where E=E and hnsID=hnsID and w=w]
  by (elim disjE exE) auto

lemma compensate_split:
  "(case D of (Some deleteErr, w3) \<Rightarrow> (Inl deleteErr, w3) | (None, w3) \<Rightarrow> (Inl r, w3)) =
     (Inl (case fst D of Some deleteErr \<Rightarrow> deleteErr | None \<Rightarrow> r), snd D)"
  by (cases D; cases "fst D") auto

text \<open>The three ways an attempt ends.\<close>

lemma tryCreateHNSNetwork_cases:
  fixes E config w
  defines "p \<equiv> NetworkRequest ''POST'' '''' config"
    and "a \<equiv> WaitForIP HNSTransparentInterfaceName"
  shows "(\<exists>msg. networkReply E (calls w) ''POST'' '''' config = Inl msg \<and>
            tryCreateHNSNetwork E config w =
              (Inl (if Contains (ToLower E msg) ''hns failed'' \<and>
                       Contains (ToLower E msg) ''unspecified error''
                    then recoverableError (PlainError msg) else PlainError msg),
               after E [p] w))
       \<or> (\<exists>response. networkReply E (calls w) ''POST'' '''' config = Inr response \<and>
            tryCreateHNSNetwork E config w = (Inr (Id_hns response), after E [p, a] w))
       \<or> (\<exists>response msg. networkReply E (calls w) ''POST'' '''' config = Inr response \<and>
            tryCreateHNSNetwork E config w =
              (case DeleteHNSNetwork E (Id_hns response) (after E [p, a] w) of
                 (Some deleteErr, w3) \<Rightarrow> (Inl deleteErr, w3)
               | (None, w3) \<Rightarrow> (Inl (recoverableError (PlainError msg)), w3)))"
proof (cases "networkReply E (calls w) ''POST'' '''' config")
  case (Inl msg)
  then show ?thesis
    by (simp add: tryCreateHNSNetwork_def HNSNetworkRequest_eq Let_def p_def)
next
  case post: (Inr response)
  show ?thesis
  proof (cases "waitReply E (calls w @ [p]) HNSTransparentInterfaceName")
    case None
    with post show ?thesis
      by (simp add: tryCreateHNSNetwork_def HNSNetworkRequest_eq
          WaitForValidIPReacquisition_eq p_def a_def)
  next
    case (Some msg)
    with post have "tryCreateHNSNetwork E config w =
              (case DeleteHNSNetwork E (Id_hns response) (after E [p, a] w) of
                 (Some deleteErr, w3) \<Rightarrow> (Inl deleteErr, w3)
               | (None, w3) \<Rightarrow> (Inl (recoverableError (PlainError msg)), w3))"
      by (simp add: tryCreateHNSNetwork_def HNSNetworkRequest_eq
          WaitForValidIPReacquisition_eq p_def a_def)
    with post show ?thesis by blast
  qed
qed

lemma tryCreateHNSNetwork_snd:
  "snd (tryCreateHNSNetwork E config w) =
     after E [NetworkRequest ''POST'' '''' config] w
   \<or> snd (tryCreateHNSNetwork E config w) =
     after E [NetworkRequest ''POST'' '''' config, WaitForIP HNSTransparentInterfaceName] w
   \<or> (\<exists>i. snd (tryCreateHNSNetwork E config w) =
     snd (DeleteHNSNetwork E i
       (after E [NetworkRequest ''POST'' '''' config, WaitForIP HNSTransparentInterfaceName] w)))"
  using tryCreateHNSNetwork_cases [where E=E and config=config and w=w]
  unfolding compensate_split
  by (elim disjE exE conjE) auto

lemma tryCreateHNSNetwork_sleeps:
  "sleeps (calls (snd (tryCreateHNSNetwork E config w))) = sleeps (calls w)"
  using tryCreateHNSNetwork_snd [of E config w]
  by (elim disjE exE) (simp_all add: DeleteHNSNetwork_sleeps sleeps_append)

lemma tryCreateHNSNetwork_now: "now w \<le> now (snd (tryCreateHNSNetwork E config w))"
proof -
  let ?w2 = "after E [NetworkRequest ''POST'' '''' config, WaitForIP HNSTransparentInterfaceName] w"
  have "now w \<le> now ?w2" by (rule now_after)
  moreover have "now ?w2 \<le> now (snd (DeleteHNSNetwork E i ?w2))" for i
    by (rule DeleteHNSNetwork_now)
  ultimately have "now w \<le> now (snd (DeleteHNSNetwork E i ?w2))" for i
    using order_trans by blast
  then show ?thesis
    using tryCreateHNSNetwork_snd [of E config w]
    by (elim disjE exE) (simp_all add: now_record_call)
qed

lemma tryCreateHNSNetwork_error:
  assumes "fst (tryCreateHNSNetwork E config w) = Inl e"
  shows "is_PlainError e \<or> (\<exists>msg. e = recoverableError (PlainError msg))"
  using tryCreateHNSNetwork_cases [where E=E and config=config and w=w]
proof (elim disjE exE conjE)
  fix response msg
  assume t: "tryCreateHNSNetwork E config w =
              (case DeleteHNSNetwork E (Id_hns response)
                  (after E [NetworkRequest ''POST'' '''' config,
                            WaitForIP HNSTransparentInterfaceName] w) of
                 (Some deleteErr, w3) \<Rightarrow> (Inl deleteErr, w3)
               | (None, w3) \<Rightarrow> (Inl (recoverableError (PlainError msg)), w3))"
  show ?thesis
    using assms DeleteHNSNetwork_error_plain [of E "Id_hns response"
        "after E [NetworkRequest ''POST'' '''' config, WaitForIP HNSTransparentInterfaceName] w"]
    unfolding t compensate_split by (auto split: option.splits)
qed (use assms in \<open>auto split: if_splits\<close>)

lemma tryCreateHNSNetwork_recoverable_inner:
  "tryCreateHNSNetwork E config w = (Inl (recoverableError e), w1) \<Longrightarrow> is_PlainError e"
  using tryCreateHNSNetwork_error [of E config w "recoverableError e"] by auto

lemma loop_recoverable:
  "tryCreateHNSNetwork E config w = (Inl (recoverableError inner_err), w1) \<Longrightarrow>
   CreateHNSNetwork_loop E config creatingStart timeout delay w =
     (if Since creatingStart w1 <s timeout
      then CreateHNSNetwork_loop E config creatingStart timeout (delay * 2) (Sleep E delay w1)
      else Some (Inl inner_err, w1))"
  by (subst CreateHNSNetwork_loop.simps) simp

lemma loop_fatal:
  "tryCreateHNSNetwork E config w = (Inl (PlainError msg), w1) \<Longrightarrow>
   CreateHNSNetwork_loop E config creatingStart timeout delay w = Some (Inl (PlainError msg), w1)"
  by (subst CreateHNSNetwork_loop.simps) simp

lemma loop_created:
  "tryCreateHNSNetwork E config w = (Inr hnsID, w1) \<Longrightarrow>
   CreateHNSNetwork_loop E config creatingStart timeout delay w = Some (Inr hnsID, w1)"
  by (subst CreateHNSNetwork_loop.simps) simp

lemma doubling_Cons:
  "(d :: duration) # map (\<lambda>k. d * 2 * 2 ^ k) [0..<n] = map (\<lambda>k. d * 2 ^ k) [0..<Suc n]"
  by (simp add: map_upt_Suc mult.assoc del: upt_Suc)

lemma calls_Sleep: "calls (Sleep E d w) = calls w @ [SleepCall d]"
  by (simp add: Sleep_def)

lemma loop_partial:
  "CreateHNSNetwork_loop E config creatingStart timeout delay w = Some y \<Longrightarrow>
   (\<exists>n. sleeps (calls (snd y)) = sleeps (calls w) @ map (\<lambda>k. delay * 2 ^ k) [0..<n]) \<and>
   (\<forall>e. fst y = Inl e \<longrightarrow> is_PlainError e)"
proof (induct rule: CreateHNSNetwork_loop.raw_induct [rotated 1, consumes 1])
  case (1 loop E config creatingStart timeout delay w y)
  obtain r w1 where t: "tryCreateHNSNetwork E config w = (r, w1)"
    by (cases "tryCreateHNSNetwork E config w")
  have s1: "sleeps (calls w1) = sleeps (calls w)"
    using tryCreateHNSNetwork_sleeps [of E config w] t by simp
  have nil: "\<exists>n. sleeps (calls w1) = sleeps (calls w) @ map (\<lambda>k. delay * 2 ^ k) [0..<n]"
    using s1 by (intro exI [of _ 0]) simp
  show ?case
  proof (cases r)
    case (Inr hnsID)
    with 1(2) t have "y = (Inr hnsID, w1)" by simp
    with nil show ?thesis by simp
  next
    case (Inl err)
    show ?thesis
    proof (cases err)
      case (PlainError msg)
      with 1(2) t Inl have "y = (Inl (PlainError msg), w1)" by simp
      with nil show ?thesis by simp
    next
      case (recoverableError inner_err)
      have plain: "is_PlainError inner_err"
        using tryCreateHNSNetwork_recoverable_inner t Inl recoverableError by blast
      show ?thesis
      proof (cases "Since creatingStart w1 <s timeout")
        case False
        with 1(2) t Inl recoverableError have "y = (Inl inner_err, w1)" by simp
        with nil plain show ?thesis by simp
      next
        case True
        with 1(2) t Inl recoverableError
        have rec: "loop E config creatingStart timeout (delay * 2) (Sleep E delay w1) = Some y"
          by simp
        from 1(1) [OF rec] obtain n where
          n: "sleeps (calls (snd y)) =
                sleeps (calls (Sleep E delay w1)) @ map (\<lambda>k. delay * 2 * 2 ^ k) [0..<n]"
          and e: "\<forall>e. fst y = Inl e \<longrightarrow> is_PlainError e"
          by blast
        have "sleeps (calls (snd y)) = sleeps (calls w) @ map (\<lambda>k. delay * 2 ^ k) [0..<Suc n]"
          unfolding n calls_Sleep sleeps_append s1 doubling_Cons [symmetric] by simp
        with e show ?thesis by blast
      qed
    qed
  qed
qed

lemma sint_of_nat_64: "n < 2 ^ 63 \<Longrightarrow> sint (of_nat n :: 64 word) = int n"
  by (simp add: sint_uint signed_take_bit_int_eq_self take_bit_nat_eq_self unsigned_of_nat)

lemma sint_double_64:
  "- (2 ^ 63) \<le> 2 * sint (d :: 64 word) \<Longrightarrow> 2 * sint d < 2 ^ 63 \<Longrightarrow> sint (d * 2) = 2 * sint d"
  by (simp add: sint_word_mult signed_take_bit_int_eq_self mult.commute)

lemma sint_less_64: "sint (T :: 64 word) < 2 ^ 63"
  using sint_lt [of T] by simp

lemma Since_less:
  assumes "Since creatingStart w <s timeout"
  shows "int (now w - creatingStart) < sint timeout"
proof (cases "now w - creatingStart < 2 ^ 63")
  case True
  then show ?thesis
    using assms by (simp add: Since_def word_sless_alt sint_of_nat_64)
next
  case False
  then have "sint (Since creatingStart w) = 2 ^ 63 - 1"
    by (simp add: Since_def)
  then show ?thesis
    using assms sint_less_64 [of timeout] by (simp add: word_sless_alt)
qed

lemma now_Sleep: "0 < sint d \<Longrightarrow> now w + nat (sint d) \<le> now (Sleep E d w)"
  by (simp add: Sleep_def now_record_call asked_def word_sless_alt)

lemma loop_total:
  assumes d0: "0 < sint d0" and bound: "sint timeout + sint d0 \<le> 2 ^ 62"
  shows "creatingStart \<le> now w \<Longrightarrow> sint d0 \<le> sint delay \<Longrightarrow>
         sint delay \<le> int (now w - creatingStart) + sint d0 \<Longrightarrow>
         \<exists>r w' ds. CreateHNSNetwork_loop E config creatingStart timeout delay w = Some (r, w') \<and>
           sleeps (calls w') = sleeps (calls w) @ ds \<and>
           (\<forall>x \<in> set ds. d0 \<le>s x) \<and>
           int (length ds) \<le> max 0 (sint timeout - int (now w - creatingStart))"
proof (induction "nat (sint timeout - int (now w - creatingStart))" arbitrary: delay w
    rule: less_induct)
  case less
  obtain r w1 where t: "tryCreateHNSNetwork E config w = (r, w1)"
    by (cases "tryCreateHNSNetwork E config w")
  have s1: "sleeps (calls w1) = sleeps (calls w)"
    using tryCreateHNSNetwork_sleeps [of E config w] t by simp
  have n1: "now w \<le> now w1"
    using tryCreateHNSNetwork_now [of w E config] t by simp
  have stop: "\<exists>r w' ds. Some (r', w1) = Some (r, w') \<and>
           sleeps (calls w') = sleeps (calls w) @ ds \<and>
           (\<forall>x \<in> set ds. d0 \<le>s x) \<and>
           int (length ds) \<le> max 0 (sint timeout - int (now w - creatingStart))" for r'
    using s1 by (intro exI [of _ r'] exI [of _ w1] exI [of _ "[]"]) simp
  show ?case
  proof (cases r)
    case (Inr hnsID)
    with t stop show ?thesis by (simp add: loop_created)
  next
    case (Inl err)
    show ?thesis
    proof (cases err)
      case (PlainError msg)
      with t Inl stop show ?thesis by (simp add: loop_fatal)
    next
      case (recoverableError inner_err)
      with t Inl have t': "tryCreateHNSNetwork E config w = (Inl (recoverableError inner_err), w1)"
        by simp
      note step = loop_recoverable [OF t', of creatingStart timeout delay]
      show ?thesis
      proof (cases "Since creatingStart w1 <s timeout")
        case False
        with step stop show ?thesis by simp
      next
        case True
        let ?w2 = "Sleep E delay w1"
        have el: "int (now w1 - creatingStart) < sint timeout"
          using True by (rule Since_less)
        have pos: "0 < sint delay" using d0 less.prems(2) by simp
        have small: "sint delay < 2 ^ 62"
          using less.prems(3) n1 el bound by simp
        have dbl: "sint (delay * 2) = 2 * sint delay"
          using pos small by (intro sint_double_64) simp_all
        have n2: "now w1 + nat (sint delay) \<le> now ?w2"
          using pos by (rule now_Sleep)
        have m: "nat (sint timeout - int (now ?w2 - creatingStart))
                   < nat (sint timeout - int (now w - creatingStart))"
          using el n1 n2 pos less.prems(1) by simp
        have p1: "creatingStart \<le> now ?w2"
          using less.prems(1) n1 n2 by simp
        have p2: "sint d0 \<le> sint (delay * 2)"
          using dbl less.prems(2) pos by simp
        have p3: "sint (delay * 2) \<le> int (now ?w2 - creatingStart) + sint d0"
          using dbl less.prems(1,3) n1 n2 pos by simp
        from less.hyps [OF m p1 p2 p3] obtain r' w' ds where
          rec: "CreateHNSNetwork_loop E config creatingStart timeout (delay * 2) ?w2 = Some (r', w')"
          and sl: "sleeps (calls w') = sleeps (calls ?w2) @ ds"
          and ge: "\<forall>x \<in> set ds. d0 \<le>s x"
          and len: "int (length ds) \<le> max 0 (sint timeout - int (now ?w2 - creatingStart))"
          by blast
        have res: "CreateHNSNetwork_loop E config creatingStart timeout delay w = Some (r', w')"
          using step True rec by simp
        have sl': "sleeps (calls w') = sleeps (calls w) @ (delay # ds)"
          unfolding sl calls_Sleep sleeps_append s1 by simp
        have ge': "\<forall>x \<in> set (delay # ds). d0 \<le>s x"
          using ge less.prems(2) by (simp add: word_sle_eq)
        have len': "int (length (delay # ds)) \<le> max 0 (sint timeout - int (now w - creatingStart))"
          using len el n1 n2 pos less.prems(1) by simp
        from res sl' ge' len' show ?thesis by blast
      qed
    qed
  qed
qed

lemma ToLower_ASCII: "isASCII s \<Longrightarrow> ToLower E s = map toLowerByte s"
  by (simp add: ToLower_def)

lemma unspecified_ASCII: "isASCII unspecified_msg"
  unfolding unspecified_msg_def by code_simp

lemma lower_unspecified:
  "map toLowerByte unspecified_msg = ''hns failed with error : unspecified error''"
  unfolding unspecified_msg_def by code_simp

lemma ToLower_unspecified:
  "ToLower E unspecified_msg = ''hns failed with error : unspecified error''"
  by (simp add: ToLower_ASCII unspecified_ASCII lower_unspecified)

lemma unspecified_recoverable:
  "Contains (ToLower E unspecified_msg) ''hns failed'' \<and>
   Contains (ToLower E unspecified_msg) ''unspecified error''"
  unfolding ToLower_unspecified by simp

lemma denied_ASCII: "isASCII ''Access is denied''"
  by code_simp

lemma lower_denied: "map toLowerByte ''Access is denied'' = ''access is denied''"
  by code_simp

lemma ToLower_denied: "ToLower E ''Access is denied'' = ''access is denied''"
  by (simp only: ToLower_ASCII [OF denied_ASCII] lower_denied)

lemma denied_fatal: "\<not> Contains (ToLower E ''Access is denied'') ''hns failed''"
  unfolding ToLower_denied by simp

lemma dotted_not_ASCII: "\<not> isASCII dotted_msg"
  unfolding dotted_msg_def by code_simp

lemma lower_dotted:
  "lowerDottedI dotted_msg = ''hns failed with error : unspecified error''"
  unfolding dotted_msg_def by code_simp

lemma dotted_recoverable:
  "Contains (ToLower dotted dotted_msg) ''hns failed'' \<and>
   Contains (ToLower dotted dotted_msg) ''unspecified error''"
  by (simp add: ToLower_def dotted_not_ASCII dotted_def healthy_def lower_dotted)

lemma now_w0 [simp]: "now w0 = 0"
  by (simp add: w0_def)

lemma calls_w0 [simp]: "calls w0 = []"
  by (simp add: w0_def)

lemma DeleteHNSNetwork_first_call:
  "\<exists>cs. snd (DeleteHNSNetwork E hnsID w) = after E (NetworkRequest ''GET'' hnsID '''' # cs) w"
  using DeleteHNSNetwork_cases [where E=E and hnsID=hnsID and w=w]
  by (elim disjE exE; simp only: snd_conv; blast)

lemma DeleteHNSNetwork_unfold:
  "DeleteHNSNetwork E hnsID w =
     (let g = NetworkRequest ''GET'' hnsID '''';
          l = ListNetworkRequest ''GET'' '''' '''';
          d = NetworkRequest ''DELETE'' hnsID ''''
      in case networkReply E (calls w) ''GET'' hnsID '''' of
           Inl msg \<Rightarrow> (Some (PlainError msg), after E [g] w)
         | Inr toDelete \<Rightarrow>
             (case listReply E (calls w @ [g]) ''GET'' '''' '''' of
                Inl msg \<Rightarrow> (Some (PlainError msg), after E [g, l] w)
              | Inr networks \<Rightarrow>
                  (case networkReply E (calls w @ [g, l]) ''DELETE'' hnsID '''' of
                     Inl msg \<Rightarrow> (Some (PlainError msg), after E [g, l, d] w)
                   | Inr resp \<Rightarrow>
                       if adapterStillInUse toDelete networks
                       then (None, after E [g, l, d] w)
                       else (map_option PlainError
                               (waitReply E (calls w @ [g, l, d]) (NetworkAdapterName toDelete)),
                             after E [g, l, d, WaitForIP (NetworkAdapterName toDelete)] w))))"
  by (cases "networkReply E (calls w) ''GET'' hnsID ''''";
      cases "listReply E (calls w @ [NetworkRequest ''GET'' hnsID '''']) ''GET'' '''' ''''";
      cases "networkReply E (calls w @ [NetworkRequest ''GET'' hnsID '''',
               ListNetworkRequest ''GET'' '''' '''']) ''DELETE'' hnsID ''''")
     (simp_all add: DeleteHNSNetwork_def GetHNSNetwork_eq ListHNSNetworks_eq Let_def
        HNSNetworkRequest_eq HNSListNetworkRequest_eq WaitForValidIPReacquisition_eq
        split: option.splits)

lemma DeleteHNSNetwork_issues_delete:
  assumes get: "networkReply E (calls w) ''GET'' hnsID '''' = Inr toDelete"
    and list: "listReply E (calls w @ [NetworkRequest ''GET'' hnsID '''']) ''GET'' '''' '''' = Inr networks"
  shows "\<exists>cs. snd (DeleteHNSNetwork E hnsID w) =
           after E (NetworkRequest ''GET'' hnsID '''' # ListNetworkRequest ''GET'' '''' '''' #
                    NetworkRequest ''DELETE'' hnsID '''' # cs) w"
proof -
  let ?g = "NetworkRequest ''GET'' hnsID ''''"
  let ?l = "ListNetworkRequest ''GET'' '''' ''''"
  let ?d = "NetworkRequest ''DELETE'' hnsID ''''"
  let ?a = "WaitForIP (NetworkAdapterName toDelete)"
  have "snd (DeleteHNSNetwork E hnsID w) = after E [?g, ?l, ?d] w \<or>
        snd (DeleteHNSNetwork E hnsID w) = after E [?g, ?l, ?d, ?a] w"
    using get list
    by (simp add: DeleteHNSNetwork_unfold Let_def split: sum.splits del: after_simps)
  then show ?thesis
    by (elim disjE; simp only: ; blast)
qed

lemma try_busy:
  "tryCreateHNSNetwork busy ''{}'' w0 =
     (Inl (PlainError ''HNS is busy''),
      after busy [NetworkRequest ''POST'' '''' ''{}'', WaitForIP HNSTransparentInterfaceName,
                  NetworkRequest ''GET'' ''net-1'' ''''] w0)"
  by (simp add: tryCreateHNSNetwork_def HNSNetworkRequest_eq WaitForValidIPReacquisition_eq
      DeleteHNSNetwork_unfold Let_def busy_def healthy_def net1_def)

lemma try_flaky_fail:
  "length (filter is_POST (calls w)) < n \<Longrightarrow>
   tryCreateHNSNetwork (flaky n) c w =
     (Inl (recoverableError (PlainError unspecified_msg)),
      after (flaky n) [NetworkRequest ''POST'' '''' c] w)"
  by (simp add: tryCreateHNSNetwork_def HNSNetworkRequest_eq flaky_def healthy_def Let_def
      ToLower_unspecified)

lemma try_flaky_created:
  "\<not> length (filter is_POST (calls w)) < n \<Longrightarrow>
   tryCreateHNSNetwork (flaky n) c w =
     (Inr ''net-1'',
      after (flaky n) [NetworkRequest ''POST'' '''' c, WaitForIP HNSTransparentInterfaceName] w)"
  by (simp add: tryCreateHNSNetwork_def HNSNetworkRequest_eq WaitForValidIPReacquisition_eq
      flaky_def healthy_def net1_def)

lemma took_flaky: "took (flaky n) cs c = 0"
  by (simp add: flaky_def healthy_def)

lemma is_POST_simps [simp]:
  "is_POST (NetworkRequest m p r) = (m = ''POST'')"
  "is_POST (ListNetworkRequest m p r) = False"
  "is_POST (WaitForIP a) = False"
  "is_POST (SleepCall d) = False"
  by (simp_all add: is_POST_def)

lemma loop_flaky_fail:
  "length (filter is_POST (calls w)) < n \<Longrightarrow>
   CreateHNSNetwork_loop (flaky n) c creatingStart timeout delay w =
     (if Since creatingStart (after (flaky n) [NetworkRequest ''POST'' '''' c] w) <s timeout
      then CreateHNSNetwork_loop (flaky n) c creatingStart timeout (delay * 2)
             (after (flaky n) [NetworkRequest ''POST'' '''' c, SleepCall delay] w)
      else Some (Inl (PlainError unspecified_msg),
                 after (flaky n) [NetworkRequest ''POST'' '''' c] w))"
  using loop_recoverable [OF try_flaky_fail, of w n c creatingStart timeout delay]
  by (simp add: Sleep_def)

lemma loop_flaky_created:
  "\<not> length (filter is_POST (calls w)) < n \<Longrightarrow>
   CreateHNSNetwork_loop (flaky n) c creatingStart timeout delay w =
     Some (Inr ''net-1'',
       after (flaky n) [NetworkRequest ''POST'' '''' c, WaitForIP HNSTransparentInterfaceName] w)"
  using loop_created [OF try_flaky_created, of w n c creatingStart timeout delay]
  by simp

lemma run_flaky_2:
  "CreateHNSNetwork_loop (flaky 2) ''{}'' 0 CreateHNSNetworkTimeout
     CreateHNSNetworkInitialRetryDelay w0 =
   Some (Inr ''net-1'',
         after (flaky 2)
           [NetworkRequest ''POST'' '''' ''{}'', SleepCall 5000,
            NetworkRequest ''POST'' '''' ''{}'', SleepCall 10000,
            NetworkRequest ''POST'' '''' ''{}'', WaitForIP HNSTransparentInterfaceName] w0)"
  by (simp add: loop_flaky_fail loop_flaky_created Since_def now_record_call took_flaky
      asked_def word_sless_alt CreateHNSNetworkTimeout_def CreateHNSNetworkInitialRetryDelay_def)

lemma tryCreateHNSNetwork_first_call:
  "\<exists>cs. snd (tryCreateHNSNetwork E config w) = after E (NetworkRequest ''POST'' '''' config # cs) w"
proof -
  let ?p = "NetworkRequest ''POST'' '''' config"
  let ?a = "WaitForIP HNSTransparentInterfaceName"
  from tryCreateHNSNetwork_snd [of E config w] show ?thesis
  proof (elim disjE exE)
    fix i
    assume s: "snd (tryCreateHNSNetwork E config w) = snd (DeleteHNSNetwork E i (after E [?p, ?a] w))"
    obtain cs where "snd (DeleteHNSNetwork E i (after E [?p, ?a] w)) =
        after E (NetworkRequest ''GET'' i '''' # cs) (after E [?p, ?a] w)"
      using DeleteHNSNetwork_first_call by blast
    then have "snd (tryCreateHNSNetwork E config w) =
        after E (?p # ?a # NetworkRequest ''GET'' i '''' # cs) w"
      using s by simp
    then show ?thesis by blast
  qed blast+
qed

lemma tryCreateHNSNetwork_waits_after_created:
  assumes "networkReply E (calls w) ''POST'' '''' config = Inr response"
  shows "\<exists>cs. snd (tryCreateHNSNetwork E config w) =
           after E (NetworkRequest ''POST'' '''' config #
                    WaitForIP HNSTransparentInterfaceName # cs) w"
proof -
  let ?p = "NetworkRequest ''POST'' '''' config"
  let ?a = "WaitForIP HNSTransparentInterfaceName"
  from tryCreateHNSNetwork_cases [where E=E and config=config and w=w] show ?thesis
  proof (elim disjE exE conjE)
    fix response' msg
    assume t: "tryCreateHNSNetwork E config w =
        (case DeleteHNSNetwork E (Id_hns response') (after E [?p, ?a] w) of
           (Some deleteErr, w3) \<Rightarrow> (Inl deleteErr, w3)
         | (None, w3) \<Rightarrow> (Inl (recoverableError (PlainError msg)), w3))"
    obtain cs where "snd (DeleteHNSNetwork E (Id_hns response') (after E [?p, ?a] w)) =
        after E (NetworkRequest ''GET'' (Id_hns response') '''' # cs) (after E [?p, ?a] w)"
      using DeleteHNSNetwork_first_call by blast
    then have "snd (tryCreateHNSNetwork E config w) =
        after E (?p # ?a # NetworkRequest ''GET'' (Id_hns response') '''' # cs) w"
      unfolding t compensate_split by simp
    then show ?thesis by blast
  next
    fix response'
    assume "tryCreateHNSNetwork E config w = (Inr (Id_hns response'), after E [?p, ?a] w)"
    then have "snd (tryCreateHNSNetwork E config w) = after E (?p # ?a # []) w"
      by simp
    then show ?thesis by blast
  next
    fix msg
    assume "networkReply E (calls w) ''POST'' '''' config = Inl msg"
    with assms show ?thesis by simp
  qed
qed

lemma loop_all_fail:
  assumes "CreateHNSNetwork_loop E config creatingStart timeout delay w = Some y"
    and "\<forall>v. \<exists>e v'. tryCreateHNSNetwork E config v = (Inl (recoverableError e), v')"
  shows "\<exists>e. fst y = Inl e"
  using assms
proof (induct rule: CreateHNSNetwork_loop.raw_induct [rotated 1, consumes 1])
  case (1 loop E config creatingStart timeout delay w y)
  obtain e w1 where t: "tryCreateHNSNetwork E config w = (Inl (recoverableError e), w1)"
    using 1(3) by blast
  show ?case
  proof (cases "Since creatingStart w1 <s timeout")
    case True
    with 1(2) t have "loop E config creatingStart timeout (delay * 2) (Sleep E delay w1) = Some y"
      by simp
    then show ?thesis
      using 1(1) 1(3) by blast
  next
    case False
    with 1(2) t show ?thesis by auto
  qed
qed

lemma run_flaky_1:
  "CreateHNSNetwork_loop (flaky 1) ''{}'' 0 CreateHNSNetworkTimeout
     CreateHNSNetworkInitialRetryDelay w0 =
   Some (Inr ''net-1'',
         after (flaky 1)
           [NetworkRequest ''POST'' '''' ''{}'', SleepCall 5000,
            NetworkRequest ''POST'' '''' ''{}'', WaitForIP HNSTransparentInterfaceName] w0)"
  by (simp add: loop_flaky_fail loop_flaky_created Since_def now_record_call took_flaky
      asked_def word_sless_alt CreateHNSNetworkTimeout_def CreateHNSNetworkInitialRetryDelay_def)

lemma try_failing:
  "tryCreateHNSNetwork failing c w =
     (Inl (recoverableError (PlainError unspecified_msg)),
      after failing [NetworkRequest ''POST'' '''' c] w)"
  by (simp add: tryCreateHNSNetwork_def HNSNetworkRequest_eq failing_def healthy_def Let_def
      ToLower_unspecified)

lemma took_failing: "took failing cs c = 0"
  by (simp add: failing_def healthy_def)

lemma run_failing:
  "CreateHNSNetwork_loop failing c 0 CreateHNSNetworkTimeout CreateHNSNetworkInitialRetryDelay w0
   = Some (Inl (PlainError unspecified_msg),
       after failing [NetworkRequest ''POST'' '''' c, SleepCall 5000,
                      NetworkRequest ''POST'' '''' c, SleepCall 10000,
                      NetworkRequest ''POST'' '''' c, SleepCall 20000,
                      NetworkRequest ''POST'' '''' c, SleepCall 40000,
                      NetworkRequest ''POST'' '''' c, SleepCall 80000,
                      NetworkRequest ''POST'' '''' c] w0)"
  by (simp add: loop_recoverable [OF try_failing] Since_def Sleep_def now_record_call
      took_failing asked_def word_sless_alt
      CreateHNSNetworkTimeout_def CreateHNSNetworkInitialRetryDelay_def)

text \<open>
  With the constants of package common, \<open>CreateHNSNetwork\<close> returns whatever the
  collaborators do.
\<close>

lemma CreateHNSNetwork_returns:
  "\<exists>r w'. CreateHNSNetwork E configuration w = Some (r, w')"
proof (cases "jsonMarshal E configuration")
  case (Inl msg)
  then show ?thesis
    by (simp add: CreateHNSNetwork_def)
next
  case (Inr configBytes)
  have pos: "0 < sint CreateHNSNetworkInitialRetryDelay"
    by (simp add: CreateHNSNetworkInitialRetryDelay_def)
  have bound: "sint CreateHNSNetworkTimeout + sint CreateHNSNetworkInitialRetryDelay \<le> 2 ^ 62"
    by (simp add: CreateHNSNetworkInitialRetryDelay_def CreateHNSNetworkTimeout_def)
  from loop_total [OF pos bound, of "now w" w CreateHNSNetworkInitialRetryDelay E configBytes]
  show ?thesis
    using Inr by (auto simp: CreateHNSNetwork_def)
qed

section \<open>The HNS wrapper: specified properties\<close>

text \<open>
  Claim C1. When the POST request of an attempt fails with message \<open>msg\<close>,
  \<open>tryCreateHNSNetwork\<close> makes no other call and wraps the error as recoverable exactly
  when \<open>strings.ToLower\<close> of the message contains both \<open>hns failed\<close> and
  \<open>unspecified error\<close>; any other error is returned unwrapped, and the loop of
  \<open>CreateHNSNetwork\<close> then returns it after that single request, whatever the delay and
  the timeout. This holds for every message, ASCII or not, and for every lower-casing
  of the letters outside ASCII.
\<close>

theorem tryCreateHNSNetwork_classifies:
  assumes "networkReply E (calls w) ''POST'' '''' config = Inl msg"
  shows "tryCreateHNSNetwork E config w =
           (Inl (if Contains (ToLower E msg) ''hns failed'' \<and>
                    Contains (ToLower E msg) ''unspecified error''
                 then recoverableError (PlainError msg) else PlainError msg),
            after E [NetworkRequest ''POST'' '''' config] w) \<and>
         (\<not> (Contains (ToLower E msg) ''hns failed'' \<and>
             Contains (ToLower E msg) ''unspecified error'') \<longrightarrow>
          CreateHNSNetwork_loop E config creatingStart timeout delay w =
            Some (Inl (PlainError msg), after E [NetworkRequest ''POST'' '''' config] w))"
proof -
  have t: "tryCreateHNSNetwork E config w =
           (Inl (if Contains (ToLower E msg) ''hns failed'' \<and>
                    Contains (ToLower E msg) ''unspecified error''
                 then recoverableError (PlainError msg) else PlainError msg),
            after E [NetworkRequest ''POST'' '''' config] w)"
    using assms by (simp add: tryCreateHNSNetwork_def HNSNetworkRequest_eq Let_def)
  show ?thesis
    by (subst CreateHNSNetwork_loop.simps) (simp add: t)
qed

theorem tryCreateHNSNetwork_classifies_witness:
  "networkReply denied (calls w0) ''POST'' '''' ''{}'' = Inl ''Access is denied'' \<and>
   tryCreateHNSNetwork denied ''{}'' w0 =
     (Inl (PlainError ''Access is denied''), after denied [NetworkRequest ''POST'' '''' ''{}''] w0) \<and>
   CreateHNSNetwork_loop denied ''{}'' 0 CreateHNSNetworkTimeout
       CreateHNSNetworkInitialRetryDelay w0 =
     Some (Inl (PlainError ''Access is denied''),
           after denied [NetworkRequest ''POST'' '''' ''{}''] w0) \<and>
   networkReply failing (calls w0) ''POST'' '''' ''{}'' = Inl unspecified_msg \<and>
   tryCreateHNSNetwork failing ''{}'' w0 =
     (Inl (recoverableError (PlainError unspecified_msg)),
      after failing [NetworkRequest ''POST'' '''' ''{}''] w0) \<and>
   networkReply dotted (calls w0) ''POST'' '''' ''{}'' = Inl dotted_msg \<and>
   tryCreateHNSNetwork dotted ''{}'' w0 =
     (Inl (recoverableError (PlainError dotted_msg)),
      after dotted [NetworkRequest ''POST'' '''' ''{}''] w0)"
proof -
  have h1: "networkReply denied (calls w0) ''POST'' '''' ''{}'' = Inl ''Access is denied''"
    by (simp add: denied_def healthy_def)
  have h2: "networkReply failing (calls w0) ''POST'' '''' ''{}'' = Inl unspecified_msg"
    by (simp add: failing_def healthy_def)
  have h3: "networkReply dotted (calls w0) ''POST'' '''' ''{}'' = Inl dotted_msg"
    by (simp add: dotted_def healthy_def)
  have d: "\<not> Contains (ToLower denied ''Access is denied'') ''hns failed''"
    by (rule denied_fatal)
  have u: "Contains (ToLower failing unspecified_msg) ''hns failed'' \<and>
           Contains (ToLower failing unspecified_msg) ''unspecified error''"
    by (rule unspecified_recoverable)
  show ?thesis
    using h1 h2 h3 d u dotted_recoverable
      tryCreateHNSNetwork_classifies [OF h1, of 0 CreateHNSNetworkTimeout
        CreateHNSNetworkInitialRetryDelay]
      tryCreateHNSNetwork_classifies [OF h2, of 0 CreateHNSNetworkTimeout
        CreateHNSNetworkInitialRetryDelay]
      tryCreateHNSNetwork_classifies [OF h3, of 0 CreateHNSNetworkTimeout
        CreateHNSNetworkInitialRetryDelay]
    by simp
qed

text \<open>
  Claim C2. When an attempt fails recoverably with inner error \<open>inner_err\<close>, that
  inner error is a collaborator's own error, never a \<open>recoverableError\<close>. If the time
  since \<open>creatingStart\<close> is below the timeout, the loop sleeps for \<open>delay\<close> and goes on
  with \<open>delay * 2\<close>; otherwise it makes no further call and returns \<open>inner_err\<close>.
  Over a whole run that returns, the sleeps asked for are \<open>delay\<close>, \<open>delay * 2\<close>,
  \<open>delay * 4\<close> and so on (in 64-bit arithmetic), and an error returned is never a
  \<open>recoverableError\<close>.
\<close>

theorem CreateHNSNetwork_backoff:
  assumes "tryCreateHNSNetwork E config w = (Inl (recoverableError inner_err), w1)"
  shows "is_PlainError inner_err \<and>
         CreateHNSNetwork_loop E config creatingStart timeout delay w =
           (if Since creatingStart w1 <s timeout
            then CreateHNSNetwork_loop E config creatingStart timeout (delay * 2)
                   (after E [SleepCall delay] w1)
            else Some (Inl inner_err, w1)) \<and>
         (\<forall>r w'. CreateHNSNetwork_loop E config creatingStart timeout delay w = Some (r, w') \<longrightarrow>
            (\<exists>n. sleeps (calls w') = sleeps (calls w) @ map (\<lambda>k. delay * 2 ^ k) [0..<n]) \<and>
            (\<forall>e. r = Inl e \<longrightarrow> is_PlainError e))"
proof -
  have a: "is_PlainError inner_err"
    using assms by (rule tryCreateHNSNetwork_recoverable_inner)
  have b: "CreateHNSNetwork_loop E config creatingStart timeout delay w =
           (if Since creatingStart w1 <s timeout
            then CreateHNSNetwork_loop E config creatingStart timeout (delay * 2)
                   (after E [SleepCall delay] w1)
            else Some (Inl inner_err, w1))"
    using loop_recoverable [OF assms] by (simp add: Sleep_def)
  have c: "(\<exists>n. sleeps (calls w') = sleeps (calls w) @ map (\<lambda>k. delay * 2 ^ k) [0..<n]) \<and>
            (\<forall>e. r = Inl e \<longrightarrow> is_PlainError e)"
    if "CreateHNSNetwork_loop E config creatingStart timeout delay w = Some (r, w')" for r w'
    using loop_partial [OF that] by simp
  from a b c show ?thesis by blast
qed

theorem CreateHNSNetwork_backoff_witness:
  "tryCreateHNSNetwork (flaky 2) ''{}'' w0 =
     (Inl (recoverableError (PlainError unspecified_msg)),
      after (flaky 2) [NetworkRequest ''POST'' '''' ''{}''] w0) \<and>
   is_PlainError (PlainError unspecified_msg) \<and>
   CreateHNSNetwork_loop (flaky 2) ''{}'' 0 CreateHNSNetworkTimeout
       CreateHNSNetworkInitialRetryDelay w0 =
     CreateHNSNetwork_loop (flaky 2) ''{}'' 0 CreateHNSNetworkTimeout
       (CreateHNSNetworkInitialRetryDelay * 2)
       (after (flaky 2) [NetworkRequest ''POST'' '''' ''{}'',
                         SleepCall CreateHNSNetworkInitialRetryDelay] w0) \<and>
   (sleeps [NetworkRequest ''POST'' '''' ''{}'', SleepCall 5000,
                 NetworkRequest ''POST'' '''' ''{}'', SleepCall 10000,
                 NetworkRequest ''POST'' '''' ''{}'', WaitForIP HNSTransparentInterfaceName] =
         map (\<lambda>k. CreateHNSNetworkInitialRetryDelay * 2 ^ k) [0..<Suc (Suc 0)])"
proof -
  have h: "tryCreateHNSNetwork (flaky 2) ''{}'' w0 =
     (Inl (recoverableError (PlainError unspecified_msg)),
      after (flaky 2) [NetworkRequest ''POST'' '''' ''{}''] w0)"
    by (simp add: try_flaky_fail)
  have s: "Since 0 (after (flaky 2) [NetworkRequest ''POST'' '''' ''{}''] w0)
             <s CreateHNSNetworkTimeout"
    by (simp add: Since_def now_record_call took_flaky asked_def word_sless_alt
        CreateHNSNetworkTimeout_def)
  have m: "map (\<lambda>k. CreateHNSNetworkInitialRetryDelay * 2 ^ k) [0..<Suc (Suc 0)] = [5000, 10000]"
    by (simp add: CreateHNSNetworkInitialRetryDelay_def)
  show ?thesis
    using h s m
      CreateHNSNetwork_backoff [OF h, of 0 CreateHNSNetworkTimeout
        CreateHNSNetworkInitialRetryDelay]
    by simp
qed

text \<open>
  Claim C3, as stated, fails. With a backend that creates the network \<open>net-1\<close>, an
  adapter that does not get its address back and a lookup of \<open>net-1\<close> that fails,
  \<open>tryCreateHNSNetwork\<close> calls \<open>DeleteHNSNetwork\<close> with the Id \<open>net-1\<close>, which returns
  the lookup's error after its GET request: the calls of the attempt are POST, the wait
  and GET, no DELETE request for \<open>net-1\<close> is sent, and the error returned is the
  lookup's. The network that was created is still there.
\<close>

theorem compensating_delete_not_sent_counterexample:
  "networkReply busy (calls w0) ''POST'' '''' ''{}'' = Inr net1 \<and>
   Id_hns net1 = ''net-1'' \<and>
   waitReply busy (calls w0 @ [NetworkRequest ''POST'' '''' ''{}'']) HNSTransparentInterfaceName
     = Some ''timeout'' \<and>
   fst (tryCreateHNSNetwork busy ''{}'' w0) = Inl (PlainError ''HNS is busy'') \<and>
   calls (snd (tryCreateHNSNetwork busy ''{}'' w0)) =
     [NetworkRequest ''POST'' '''' ''{}'', WaitForIP HNSTransparentInterfaceName,
      NetworkRequest ''GET'' ''net-1'' ''''] \<and>
   NetworkRequest ''DELETE'' ''net-1'' '''' \<notin>
     set (calls (snd (tryCreateHNSNetwork busy ''{}'' w0)))"
proof -
  have h1: "networkReply busy (calls w0) ''POST'' '''' ''{}'' = Inr net1"
    by (simp add: busy_def healthy_def)
  have h2: "waitReply busy (calls w0 @ [NetworkRequest ''POST'' '''' ''{}''])
              HNSTransparentInterfaceName = Some ''timeout''"
    by (simp add: busy_def healthy_def)
  have i: "Id_hns net1 = ''net-1''"
    by (simp add: net1_def)
  show ?thesis
    unfolding try_busy
    using h1 h2 i
    by simp
qed

text \<open>
  Claim C3, amended. When the POST request succeeds and the wait for the adapter that
  follows it fails, \<open>tryCreateHNSNetwork\<close> calls \<open>DeleteHNSNetwork\<close> with the Id of the
  network just created and returns an error: the error of \<open>DeleteHNSNetwork\<close> if it
  fails, the wait's error wrapped as recoverable otherwise. \<open>DeleteHNSNetwork\<close> first
  looks that Id up and lists the networks. When the lookup fails the attempt ends after
  the GET request with the lookup's error, and when the listing fails it ends after the
  list request with the listing's error; in both cases no DELETE request is sent. When
  both succeed, the DELETE request for that Id is the next call.
\<close>

theorem tryCreateHNSNetwork_compensates:
  assumes "networkReply E (calls w) ''POST'' '''' config = Inr response"
    and "waitReply E (calls w @ [NetworkRequest ''POST'' '''' config]) HNSTransparentInterfaceName
           = Some msg"
  shows "let p = NetworkRequest ''POST'' '''' config;
             a = WaitForIP HNSTransparentInterfaceName;
             g = NetworkRequest ''GET'' (Id_hns response) '''';
             l = ListNetworkRequest ''GET'' '''' '''';
             d = NetworkRequest ''DELETE'' (Id_hns response) '''';
             w2 = after E [p, a] w;
             compensation = DeleteHNSNetwork E (Id_hns response) w2
         in tryCreateHNSNetwork E config w =
              (Inl (case fst compensation of
                      Some deleteErr \<Rightarrow> deleteErr
                    | None \<Rightarrow> recoverableError (PlainError msg)),
               snd compensation) \<and>
            (case networkReply E (calls w2) ''GET'' (Id_hns response) '''' of
               Inl getMsg \<Rightarrow>
                 tryCreateHNSNetwork E config w = (Inl (PlainError getMsg), after E [p, a, g] w)
             | Inr toDelete \<Rightarrow>
                 (case listReply E (calls w2 @ [g]) ''GET'' '''' '''' of
                    Inl listMsg \<Rightarrow>
                      tryCreateHNSNetwork E config w =
                        (Inl (PlainError listMsg), after E [p, a, g, l] w)
                  | Inr networks \<Rightarrow>
                      (\<exists>cs. snd (tryCreateHNSNetwork E config w) =
                              after E (p # a # g # l # d # cs) w)))"
proof -
  let ?p = "NetworkRequest ''POST'' '''' config"
  let ?a = "WaitForIP HNSTransparentInterfaceName"
  let ?g = "NetworkRequest ''GET'' (Id_hns response) ''''"
  let ?l = "ListNetworkRequest ''GET'' '''' ''''"
  let ?d = "NetworkRequest ''DELETE'' (Id_hns response) ''''"
  let ?w2 = "after E [?p, ?a] w"
  let ?D = "DeleteHNSNetwork E (Id_hns response) ?w2"
  have t: "tryCreateHNSNetwork E config w =
              (Inl (case fst ?D of
                      Some deleteErr \<Rightarrow> deleteErr
                    | None \<Rightarrow> recoverableError (PlainError msg)),
               snd ?D)"
    using assms
    by (simp add: tryCreateHNSNetwork_def HNSNetworkRequest_eq WaitForValidIPReacquisition_eq
        compensate_split)
  have c: "case networkReply E (calls ?w2) ''GET'' (Id_hns response) '''' of
               Inl getMsg \<Rightarrow>
                 tryCreateHNSNetwork E config w = (Inl (PlainError getMsg), after E [?p, ?a, ?g] w)
             | Inr toDelete \<Rightarrow>
                 (case listReply E (calls ?w2 @ [?g]) ''GET'' '''' '''' of
                    Inl listMsg \<Rightarrow>
                      tryCreateHNSNetwork E config w =
                        (Inl (PlainError listMsg), after E [?p, ?a, ?g, ?l] w)
                  | Inr networks \<Rightarrow>
                      (\<exists>cs. snd (tryCreateHNSNetwork E config w) =
                              after E (?p # ?a # ?g # ?l # ?d # cs) w))"
  proof (cases "networkReply E (calls ?w2) ''GET'' (Id_hns response) ''''")
    case (Inl getMsg)
    then have "?D = (Some (PlainError getMsg), after E [?g] ?w2)"
      by (simp add: DeleteHNSNetwork_unfold Let_def del: after_simps)
    with t Inl show ?thesis
      by simp
  next
    case get: (Inr toDelete)
    show ?thesis
    proof (cases "listReply E (calls ?w2 @ [?g]) ''GET'' '''' ''''")
      case (Inl listMsg)
      with get have "?D = (Some (PlainError listMsg), after E [?g, ?l] ?w2)"
        by (simp add: DeleteHNSNetwork_unfold Let_def del: after_simps)
      with t get Inl show ?thesis
        by simp
    next
      case (Inr networks)
      obtain cs where "snd ?D = after E (?g # ?l # ?d # cs) ?w2"
        using DeleteHNSNetwork_issues_delete [OF get Inr] by blast
      then have "snd (tryCreateHNSNetwork E config w) =
                   after E (?p # ?a # ?g # ?l # ?d # cs) w"
        using t by simp
      then have "\<exists>cs. snd (tryCreateHNSNetwork E config w) =
                   after E (?p # ?a # ?g # ?l # ?d # cs) w"
        by blast
      with get Inr show ?thesis
        by simp
    qed
  qed
  show ?thesis
    unfolding Let_def
    using t c by blast
qed

theorem tryCreateHNSNetwork_compensates_witness:
  "networkReply unplugged (calls w0) ''POST'' '''' ''{}'' = Inr net1 \<and>
   waitReply unplugged (calls w0 @ [NetworkRequest ''POST'' '''' ''{}'']) HNSTransparentInterfaceName
     = Some ''timeout'' \<and>
   tryCreateHNSNetwork unplugged ''{}'' w0 =
     (Inl (PlainError ''timeout''),
      after unplugged
        [NetworkRequest ''POST'' '''' ''{}'', WaitForIP HNSTransparentInterfaceName,
         NetworkRequest ''GET'' ''net-1'' '''', ListNetworkRequest ''GET'' '''' '''',
         NetworkRequest ''DELETE'' ''net-1'' '''', WaitForIP ''Ethernet0''] w0) \<and>
   networkReply busy (calls w0) ''POST'' '''' ''{}'' = Inr net1 \<and>
   waitReply busy (calls w0 @ [NetworkRequest ''POST'' '''' ''{}'']) HNSTransparentInterfaceName
     = Some ''timeout'' \<and>
   tryCreateHNSNetwork busy ''{}'' w0 =
     (Inl (PlainError ''HNS is busy''),
      after busy
        [NetworkRequest ''POST'' '''' ''{}'', WaitForIP HNSTransparentInterfaceName,
         NetworkRequest ''GET'' ''net-1'' ''''] w0)"
proof -
  have h1: "networkReply unplugged (calls w0) ''POST'' '''' ''{}'' = Inr net1"
    by (simp add: unplugged_def healthy_def)
  have h2: "waitReply unplugged (calls w0 @ [NetworkRequest ''POST'' '''' ''{}''])
              HNSTransparentInterfaceName = Some ''timeout''"
    by (simp add: unplugged_def healthy_def)
  have d: "DeleteHNSNetwork unplugged ''net-1''
             (after unplugged [NetworkRequest ''POST'' '''' ''{}'',
                               WaitForIP HNSTransparentInterfaceName] w0) =
           (Some (PlainError ''timeout''),
            after unplugged
              [NetworkRequest ''POST'' '''' ''{}'', WaitForIP HNSTransparentInterfaceName,
               NetworkRequest ''GET'' ''net-1'' '''', ListNetworkRequest ''GET'' '''' '''',
               NetworkRequest ''DELETE'' ''net-1'' '''', WaitForIP ''Ethernet0''] w0)"
    by (simp add: DeleteHNSNetwork_def GetHNSNetwork_eq ListHNSNetworks_eq
        HNSNetworkRequest_eq HNSListNetworkRequest_eq WaitForValidIPReacquisition_eq
        unplugged_def healthy_def net1_def)
  have k1: "networkReply busy (calls w0) ''POST'' '''' ''{}'' = Inr net1"
    by (simp add: busy_def healthy_def)
  have k2: "waitReply busy (calls w0 @ [NetworkRequest ''POST'' '''' ''{}''])
              HNSTransparentInterfaceName = Some ''timeout''"
    by (simp add: busy_def healthy_def)
  have e: "DeleteHNSNetwork busy ''net-1''
             (after busy [NetworkRequest ''POST'' '''' ''{}'',
                          WaitForIP HNSTransparentInterfaceName] w0) =
           (Some (PlainError ''HNS is busy''),
            after busy
              [NetworkRequest ''POST'' '''' ''{}'', WaitForIP HNSTransparentInterfaceName,
               NetworkRequest ''GET'' ''net-1'' ''''] w0)"
    by (simp add: DeleteHNSNetwork_def GetHNSNetwork_eq HNSNetworkRequest_eq
        busy_def healthy_def)
  have i: "Id_hns net1 = ''net-1''"
    by (simp add: net1_def)
  have u: "tryCreateHNSNetwork unplugged ''{}'' w0 =
     (Inl (PlainError ''timeout''),
      after unplugged
        [NetworkRequest ''POST'' '''' ''{}'', WaitForIP HNSTransparentInterfaceName,
         NetworkRequest ''GET'' ''net-1'' '''', ListNetworkRequest ''GET'' '''' '''',
         NetworkRequest ''DELETE'' ''net-1'' '''', WaitForIP ''Ethernet0''] w0)"
    using tryCreateHNSNetwork_compensates [OF h1 h2, unfolded Let_def i d]
    by simp
  have b: "tryCreateHNSNetwork busy ''{}'' w0 =
     (Inl (PlainError ''HNS is busy''),
      after busy
        [NetworkRequest ''POST'' '''' ''{}'', WaitForIP HNSTransparentInterfaceName,
         NetworkRequest ''GET'' ''net-1'' ''''] w0)"
    using tryCreateHNSNetwork_compensates [OF k1 k2, unfolded Let_def i e]
    by simp
  show ?thesis
    using h1 h2 k1 k2 u b
    by simp
qed

text \<open>
  Claim C4, as stated, fails. With a backend whose first POST request fails with the
  transient message and whose second succeeds, the first attempt consists of the POST
  request alone, and the calls of the whole creation are: POST, a sleep of the initial
  delay, POST, and only then the wait for the adapter, after the request that
  succeeded. Nothing waits for the adapter between the recoverable failure and the
  second attempt.
\<close>

theorem adapter_wait_before_retry_counterexample:
  "tryCreateHNSNetwork (flaky 1) ''{}'' w0 =
     (Inl (recoverableError (PlainError unspecified_msg)),
      after (flaky 1) [NetworkRequest ''POST'' '''' ''{}''] w0) \<and>
   CreateHNSNetwork (flaky 1) net1 w0 =
     Some (Inr ''net-1'',
           after (flaky 1)
             [NetworkRequest ''POST'' '''' ''{}'', SleepCall 5000,
              NetworkRequest ''POST'' '''' ''{}'', WaitForIP HNSTransparentInterfaceName] w0) \<and>
   WaitForIP HNSTransparentInterfaceName \<notin>
     set [NetworkRequest ''POST'' '''' ''{}'', SleepCall 5000]"
proof -
  have j: "jsonMarshal (flaky n) net1 = Inr ''{}''" for n
    by (simp add: flaky_def healthy_def)
  show ?thesis
    using run_flaky_1 by (simp add: try_flaky_fail CreateHNSNetwork_def j)
qed

text \<open>
  Claim C4, amended. The wait for the adapter belongs to an attempt whose POST request
  succeeded: it is the call that follows that request. An attempt whose POST request
  fails makes no other call. Every attempt starts with the POST request, and between
  an attempt that failed recoverably within the timeout and the next attempt the loop
  makes one call, the sleep.
\<close>

theorem adapter_wait_follows_created:
  "(networkReply E (calls w) ''POST'' '''' config = Inl msg \<longrightarrow>
      snd (tryCreateHNSNetwork E config w) = after E [NetworkRequest ''POST'' '''' config] w) \<and>
   (networkReply E (calls w) ''POST'' '''' config = Inr response \<longrightarrow>
      (\<exists>cs. snd (tryCreateHNSNetwork E config w) =
              after E (NetworkRequest ''POST'' '''' config #
                       WaitForIP HNSTransparentInterfaceName # cs) w)) \<and>
   (\<exists>cs. snd (tryCreateHNSNetwork E config w) =
           after E (NetworkRequest ''POST'' '''' config # cs) w) \<and>
   (tryCreateHNSNetwork E config w = (Inl (recoverableError inner_err), w1) \<and>
    Since creatingStart w1 <s timeout \<longrightarrow>
      CreateHNSNetwork_loop E config creatingStart timeout delay w =
        CreateHNSNetwork_loop E config creatingStart timeout (delay * 2)
          (after E [SleepCall delay] w1))"
proof -
  have a: "snd (tryCreateHNSNetwork E config w) = after E [NetworkRequest ''POST'' '''' config] w"
    if "networkReply E (calls w) ''POST'' '''' config = Inl msg"
    using that by (simp add: tryCreateHNSNetwork_def HNSNetworkRequest_eq Let_def)
  have d: "CreateHNSNetwork_loop E config creatingStart timeout delay w =
        CreateHNSNetwork_loop E config creatingStart timeout (delay * 2)
          (after E [SleepCall delay] w1)"
    if "tryCreateHNSNetwork E config w = (Inl (recoverableError inner_err), w1)"
      and "Since creatingStart w1 <s timeout"
    using loop_recoverable [OF that(1), of creatingStart timeout delay] that(2)
    by (simp add: Sleep_def)
  show ?thesis
    using a d tryCreateHNSNetwork_waits_after_created [of E w config response]
      tryCreateHNSNetwork_first_call [of E config w]
    by blast
qed

theorem adapter_wait_follows_created_witness:
  "networkReply (flaky 1) (calls w0) ''POST'' '''' ''{}'' = Inl unspecified_msg \<and>
   snd (tryCreateHNSNetwork (flaky 1) ''{}'' w0) =
     after (flaky 1) [NetworkRequest ''POST'' '''' ''{}''] w0 \<and>
   Since 0 (after (flaky 1) [NetworkRequest ''POST'' '''' ''{}''] w0) <s CreateHNSNetworkTimeout \<and>
   CreateHNSNetwork_loop (flaky 1) ''{}'' 0 CreateHNSNetworkTimeout
       CreateHNSNetworkInitialRetryDelay w0 =
     CreateHNSNetwork_loop (flaky 1) ''{}'' 0 CreateHNSNetworkTimeout
       (CreateHNSNetworkInitialRetryDelay * 2)
       (after (flaky 1) [NetworkRequest ''POST'' '''' ''{}'',
                         SleepCall CreateHNSNetworkInitialRetryDelay] w0) \<and>
   networkReply healthy (calls w0) ''POST'' '''' ''{}'' = Inr net1 \<and>
   (\<exists>cs. snd (tryCreateHNSNetwork healthy ''{}'' w0) =
           after healthy (NetworkRequest ''POST'' '''' ''{}'' #
                          WaitForIP HNSTransparentInterfaceName # cs) w0)"
proof -
  have h1: "networkReply (flaky 1) (calls w0) ''POST'' '''' ''{}'' = Inl unspecified_msg"
    by (simp add: flaky_def healthy_def)
  have h2: "tryCreateHNSNetwork (flaky 1) ''{}'' w0 =
     (Inl (recoverableError (PlainError unspecified_msg)),
      after (flaky 1) [NetworkRequest ''POST'' '''' ''{}''] w0)"
    by (simp add: try_flaky_fail)
  have h3: "Since 0 (after (flaky 1) [NetworkRequest ''POST'' '''' ''{}''] w0)
              <s CreateHNSNetworkTimeout"
    by (simp add: Since_def now_record_call took_flaky asked_def word_sless_alt
        CreateHNSNetworkTimeout_def)
  have h4: "networkReply healthy (calls w0) ''POST'' '''' ''{}'' = Inr net1"
    by (simp add: healthy_def)
  show ?thesis
    using h1 h2 h3 h4
      adapter_wait_follows_created [of "flaky 1" w0 "''{}''" unspecified_msg net1
        "PlainError unspecified_msg" "after (flaky 1) [NetworkRequest ''POST'' '''' ''{}''] w0"
        0 CreateHNSNetworkTimeout CreateHNSNetworkInitialRetryDelay]
      adapter_wait_follows_created [of healthy w0 "''{}''" unspecified_msg net1
        "PlainError unspecified_msg" w0 0 CreateHNSNetworkTimeout
        CreateHNSNetworkInitialRetryDelay]
    by simp
qed

text \<open>
  Claim C5. Let the initial delay be positive and the timeout plus the initial delay at
  most \<open>2 ^ 62\<close>, so that no delay reached within the timeout overflows. Then the loop
  of \<open>CreateHNSNetwork\<close>, started at the time \<open>creatingStart\<close> is read, returns for
  every behaviour of the collaborators: it is never the endless loop \<open>None\<close>. Each
  sleep it asks for is at least the initial delay, and it sleeps at most \<open>timeout\<close>
  times. When every attempt fails recoverably, what it returns is an error of a
  collaborator.
\<close>

theorem CreateHNSNetwork_terminates:
  assumes "0 <s delay" and "sint timeout + sint delay \<le> 2 ^ 62"
  shows "\<exists>r w' ds.
           CreateHNSNetwork_loop E config (now w) timeout delay w = Some (r, w') \<and>
           sleeps (calls w') = sleeps (calls w) @ ds \<and>
           (\<forall>x \<in> set ds. delay \<le>s x) \<and>
           int (length ds) \<le> max 0 (sint timeout) \<and>
           ((\<forall>v. \<exists>e v'. tryCreateHNSNetwork E config v = (Inl (recoverableError e), v')) \<longrightarrow>
            (\<exists>msg. r = Inl (PlainError msg)))"
proof -
  have pos: "0 < sint delay"
    using assms(1) by (simp add: word_sless_alt)
  from loop_total [OF pos assms(2), of "now w" w delay E config]
  obtain r w' ds where
    run: "CreateHNSNetwork_loop E config (now w) timeout delay w = Some (r, w')"
    and sl: "sleeps (calls w') = sleeps (calls w) @ ds"
    and ge: "\<forall>x \<in> set ds. delay \<le>s x"
    and len: "int (length ds) \<le> max 0 (sint timeout)"
    by auto
  have "\<exists>msg. r = Inl (PlainError msg)"
    if "\<forall>v. \<exists>e v'. tryCreateHNSNetwork E config v = (Inl (recoverableError e), v')"
  proof -
    from loop_all_fail [OF run that] obtain e where e: "r = Inl e"
      by auto
    with loop_partial [OF run] have "is_PlainError e"
      by simp
    then obtain msg where "e = PlainError msg"
      by (cases e) simp_all
    with e show ?thesis by simp
  qed
  with run sl ge len show ?thesis by blast
qed

theorem CreateHNSNetwork_terminates_witness:
  "0 <s CreateHNSNetworkInitialRetryDelay \<and>
   sint CreateHNSNetworkTimeout + sint CreateHNSNetworkInitialRetryDelay \<le> 2 ^ 62 \<and>
   (\<forall>v. \<exists>e v'. tryCreateHNSNetwork failing ''{}'' v = (Inl (recoverableError e), v')) \<and>
   CreateHNSNetwork_loop failing ''{}'' (now w0) CreateHNSNetworkTimeout
       CreateHNSNetworkInitialRetryDelay w0 =
     Some (Inl (PlainError unspecified_msg),
       after failing [NetworkRequest ''POST'' '''' ''{}'', SleepCall 5000,
                      NetworkRequest ''POST'' '''' ''{}'', SleepCall 10000,
                      NetworkRequest ''POST'' '''' ''{}'', SleepCall 20000,
                      NetworkRequest ''POST'' '''' ''{}'', SleepCall 40000,
                      NetworkRequest ''POST'' '''' ''{}'', SleepCall 80000,
                      NetworkRequest ''POST'' '''' ''{}''] w0) \<and>
   (\<exists>r w' ds.
      CreateHNSNetwork_loop failing ''{}'' (now w0) CreateHNSNetworkTimeout
        CreateHNSNetworkInitialRetryDelay w0 = Some (r, w') \<and>
      sleeps (calls w') = sleeps (calls w0) @ ds \<and>
      (\<forall>x \<in> set ds. CreateHNSNetworkInitialRetryDelay \<le>s x) \<and>
      int (length ds) \<le> max 0 (sint CreateHNSNetworkTimeout) \<and>
      (\<exists>msg. r = Inl (PlainError msg)))"
proof -
  have h1: "0 <s CreateHNSNetworkInitialRetryDelay"
    by (simp add: CreateHNSNetworkInitialRetryDelay_def word_sless_alt)
  have h2: "sint CreateHNSNetworkTimeout + sint CreateHNSNetworkInitialRetryDelay \<le> 2 ^ 62"
    by (simp add: CreateHNSNetworkInitialRetryDelay_def CreateHNSNetworkTimeout_def)
  have h3: "\<forall>v. \<exists>e v'. tryCreateHNSNetwork failing ''{}'' v = (Inl (recoverableError e), v')"
    by (simp add: try_failing)
  have r: "CreateHNSNetwork_loop failing ''{}'' (now w0) CreateHNSNetworkTimeout
       CreateHNSNetworkInitialRetryDelay w0 =
     Some (Inl (PlainError unspecified_msg),
       after failing [NetworkRequest ''POST'' '''' ''{}'', SleepCall 5000,
                      NetworkRequest ''POST'' '''' ''{}'', SleepCall 10000,
                      NetworkRequest ''POST'' '''' ''{}'', SleepCall 20000,
                      NetworkRequest ''POST'' '''' ''{}'', SleepCall 40000,
                      NetworkRequest ''POST'' '''' ''{}'', SleepCall 80000,
                      NetworkRequest ''POST'' '''' ''{}''] w0)"
    using run_failing [of "''{}''"] by simp
  from CreateHNSNetwork_terminates [OF h1 h2, of failing "''{}''" w0] h3
  have c: "\<exists>r w' ds.
      CreateHNSNetwork_loop failing ''{}'' (now w0) CreateHNSNetworkTimeout
        CreateHNSNetworkInitialRetryDelay w0 = Some (r, w') \<and>
      sleeps (calls w') = sleeps (calls w0) @ ds \<and>
      (\<forall>x \<in> set ds. CreateHNSNetworkInitialRetryDelay \<le>s x) \<and>
      int (length ds) \<le> max 0 (sint CreateHNSNetworkTimeout) \<and>
      (\<exists>msg. r = Inl (PlainError msg))"
    by blast
  from h1 h2 h3 r c show ?thesis
    by blast
qed

text \<open>
  Claim C9. When the list request succeeds, \<open>GetHNSNetworkByName\<close> returns no error,
  and it returns the nil network exactly when no listed network has the name. A lookup
  by Id, \<open>GetHNSNetwork\<close>, returns HNS's error when the GET request for the Id fails.
\<close>

theorem GetHNSNetworkByName_nil_nil:
  "(listReply E (calls w) ''GET'' '''' '''' = Inr nets \<longrightarrow>
      (\<exists>found. fst (GetHNSNetworkByName E name w) = Inr found) \<and>
      (fst (GetHNSNetworkByName E name w) = Inr None) = (\<forall>n \<in> set nets. Name_hns n \<noteq> name)) \<and>
   (networkReply E (calls w) ''GET'' hnsID '''' = Inl msg \<longrightarrow>
      fst (GetHNSNetwork E hnsID w) = Inl (PlainError msg))"
  by (auto simp: GetHNSNetworkByName_def GetHNSNetwork_eq HNSListNetworkRequest_eq
      HNSNetworkRequest_eq find_None_iff)

theorem GetHNSNetworkByName_nil_nil_witness:
  "listReply vacant (calls w0) ''GET'' '''' '''' = Inr [] \<and>
   fst (GetHNSNetworkByName vacant ''asdf'' w0) = Inr None \<and>
   networkReply vacant (calls w0) ''GET'' ''1234abcd'' '''' = Inl ''The network was not found'' \<and>
   fst (GetHNSNetwork vacant ''1234abcd'' w0) = Inl (PlainError ''The network was not found'') \<and>
   listReply healthy (calls w0) ''GET'' '''' '''' = Inr [net1] \<and>
   fst (GetHNSNetworkByName healthy ''ContrailRootNetwork'' w0) = Inr (Some net1)"
proof -
  have h1: "listReply vacant (calls w0) ''GET'' '''' '''' = Inr []"
    by (simp add: vacant_def healthy_def)
  have h2: "networkReply vacant (calls w0) ''GET'' ''1234abcd'' '''' =
              Inl ''The network was not found''"
    by (simp add: vacant_def healthy_def)
  have h3: "listReply healthy (calls w0) ''GET'' '''' '''' = Inr [net1]"
    by (simp add: healthy_def)
  have h4: "fst (GetHNSNetworkByName healthy ''ContrailRootNetwork'' w0) = Inr (Some net1)"
    by (simp add: GetHNSNetworkByName_def HNSListNetworkRequest_eq healthy_def net1_def)
  show ?thesis
    using h1 h2 h3 h4
      GetHNSNetworkByName_nil_nil [of vacant w0 "[]" "''asdf''" "''1234abcd''"
        "''The network was not found''"]
    by simp
qed

text \<open>
  Claim C10. When the lookup, the listing and the DELETE request of \<open>DeleteHNSNetwork\<close>
  succeed: if a listed network with another Id uses the adapter of the deleted network,
  the function returns nil right after the DELETE request; otherwise it goes on to wait
  for that adapter and returns what the wait returns.
\<close>

theorem DeleteHNSNetwork_wait_iff:
  assumes "networkReply E (calls w) ''GET'' hnsID '''' = Inr toDelete"
    and "listReply E (calls w @ [NetworkRequest ''GET'' hnsID '''']) ''GET'' '''' '''' = Inr networks"
    and "networkReply E (calls w @ [NetworkRequest ''GET'' hnsID '''',
                                     ListNetworkRequest ''GET'' '''' ''''])
           ''DELETE'' hnsID '''' = Inr resp"
  shows "let w3 = after E [NetworkRequest ''GET'' hnsID '''', ListNetworkRequest ''GET'' '''' '''',
                           NetworkRequest ''DELETE'' hnsID ''''] w
         in DeleteHNSNetwork E hnsID w =
              (if \<exists>n \<in> set networks. Id_hns n \<noteq> Id_hns toDelete \<and>
                    NetworkAdapterName n = NetworkAdapterName toDelete
               then (None, w3)
               else WaitForValidIPReacquisition E (NetworkAdapterName toDelete) w3)"
  using assms
  by (auto simp: DeleteHNSNetwork_unfold WaitForValidIPReacquisition_eq adapterStillInUse_iff
      Let_def)

theorem DeleteHNSNetwork_wait_iff_witness:
  "networkReply shared (calls w0) ''GET'' ''net-1'' '''' = Inr net1 \<and>
   listReply shared (calls w0 @ [NetworkRequest ''GET'' ''net-1'' '''']) ''GET'' '''' ''''
     = Inr [net1, net2] \<and>
   networkReply shared (calls w0 @ [NetworkRequest ''GET'' ''net-1'' '''',
                                    ListNetworkRequest ''GET'' '''' ''''])
     ''DELETE'' ''net-1'' '''' = Inr net1 \<and>
   DeleteHNSNetwork shared ''net-1'' w0 =
     (None, after shared [NetworkRequest ''GET'' ''net-1'' '''',
                          ListNetworkRequest ''GET'' '''' '''',
                          NetworkRequest ''DELETE'' ''net-1'' ''''] w0) \<and>
   networkReply healthy (calls w0) ''GET'' ''net-1'' '''' = Inr net1 \<and>
   listReply healthy (calls w0 @ [NetworkRequest ''GET'' ''net-1'' '''']) ''GET'' '''' ''''
     = Inr [net1] \<and>
   networkReply healthy (calls w0 @ [NetworkRequest ''GET'' ''net-1'' '''',
                                     ListNetworkRequest ''GET'' '''' ''''])
     ''DELETE'' ''net-1'' '''' = Inr net1 \<and>
   DeleteHNSNetwork healthy ''net-1'' w0 =
     (None, after healthy [NetworkRequest ''GET'' ''net-1'' '''',
                           ListNetworkRequest ''GET'' '''' '''',
                           NetworkRequest ''DELETE'' ''net-1'' '''',
                           WaitForIP ''Ethernet0''] w0)"
proof -
  have s1: "networkReply shared (calls w0) ''GET'' ''net-1'' '''' = Inr net1"
    by (simp add: shared_def healthy_def)
  have s2: "listReply shared (calls w0 @ [NetworkRequest ''GET'' ''net-1'' ''''])
              ''GET'' '''' '''' = Inr [net1, net2]"
    by (simp add: shared_def healthy_def)
  have s3: "networkReply shared (calls w0 @ [NetworkRequest ''GET'' ''net-1'' '''',
              ListNetworkRequest ''GET'' '''' '''']) ''DELETE'' ''net-1'' '''' = Inr net1"
    by (simp add: shared_def healthy_def)
  have h1: "networkReply healthy (calls w0) ''GET'' ''net-1'' '''' = Inr net1"
    by (simp add: healthy_def)
  have h2: "listReply healthy (calls w0 @ [NetworkRequest ''GET'' ''net-1'' ''''])
              ''GET'' '''' '''' = Inr [net1]"
    by (simp add: healthy_def)
  have h3: "networkReply healthy (calls w0 @ [NetworkRequest ''GET'' ''net-1'' '''',
              ListNetworkRequest ''GET'' '''' '''']) ''DELETE'' ''net-1'' '''' = Inr net1"
    by (simp add: healthy_def)
  have w: "waitReply healthy cs a = None" for cs a
    by (simp add: healthy_def)
  show ?thesis
    using s1 s2 s3 h1 h2 h3
      DeleteHNSNetwork_wait_iff [OF s1 s2 s3]
      DeleteHNSNetwork_wait_iff [OF h1 h2 h3]
    by (simp add: Let_def net1_def net2_def WaitForValidIPReacquisition_eq w)
qed

section \<open>The driver orchestrator: specified properties\<close>

text \<open>
  Claim C6. A \<open>CreateNetwork\<close> request whose option map lacks the tenant or the network
  name is answered with \<open>InvalidRequest\<close>, and the orchestrator's state is what it was:
  no port was called and no mapping was added.
\<close>

theorem CreateNetwork_invalid_request:
  assumes "requestOptions req ''tenant'' = None \<or> requestOptions req ''network'' = None"
  shows "CreateNetwork P req s = (Some InvalidRequest, s)"
  using assms
  by (auto simp: CreateNetwork_def split: option.splits)

theorem CreateNetwork_invalid_request_witness:
  "(requestOptions \<lparr>runtimeNetworkID = ''MyAwesomeNet'',
                    requestOptions = [''network'' \<mapsto> ''test_net''],
                    subnetHint = ''1.2.3.4/24''\<rparr> ''tenant'' = None \<or>
    requestOptions \<lparr>runtimeNetworkID = ''MyAwesomeNet'',
                    requestOptions = [''network'' \<mapsto> ''test_net''],
                    subnetHint = ''1.2.3.4/24''\<rparr> ''network'' = None) \<and>
   CreateNetwork sim_ports
     \<lparr>runtimeNetworkID = ''MyAwesomeNet'', requestOptions = [''network'' \<mapsto> ''test_net''],
      subnetHint = ''1.2.3.4/24''\<rparr> fresh = (Some InvalidRequest, fresh) \<and>
   portCalls (snd (CreateNetwork sim_ports
     \<lparr>runtimeNetworkID = ''MyAwesomeNet'', requestOptions = [''network'' \<mapsto> ''test_net''],
      subnetHint = ''1.2.3.4/24''\<rparr> fresh)) = [] \<and>
   fst (CreateNetwork sim_ports
     \<lparr>runtimeNetworkID = ''MyAwesomeNet'',
      requestOptions = [''tenant'' \<mapsto> ''agatka'', ''network'' \<mapsto> ''test_net''],
      subnetHint = ''1.2.3.4/24''\<rparr> fresh) = None"
proof -
  let ?req = "\<lparr>runtimeNetworkID = ''MyAwesomeNet'',
               requestOptions = [''network'' \<mapsto> ''test_net''],
               subnetHint = ''1.2.3.4/24''\<rparr>"
  have h: "requestOptions ?req ''tenant'' = None \<or> requestOptions ?req ''network'' = None"
    by simp
  have ok: "fst (CreateNetwork sim_ports
     \<lparr>runtimeNetworkID = ''MyAwesomeNet'',
      requestOptions = [''tenant'' \<mapsto> ''agatka'', ''network'' \<mapsto> ''test_net''],
      subnetHint = ''1.2.3.4/24''\<rparr> fresh) = None"
    by (simp add: CreateNetwork_def sim_ports_def Let_def)
  show ?thesis
    using h ok CreateNetwork_invalid_request [OF h, of sim_ports fresh]
    by (simp add: fresh_def)
qed

text \<open>
  Claim C7. \<open>DeleteNetwork\<close> for a runtime network ID that has no mapping returns
  success and leaves the state as it was. When a mapping exists and the local-network
  backend answers the deletion with \<open>NotFound\<close>, \<open>DeleteNetwork\<close> returns success and
  the mapping is gone.
\<close>

theorem DeleteNetwork_idempotent:
  "(managedNetworks s runtimeID = None \<longrightarrow> DeleteNetwork P runtimeID s = (None, s)) \<and>
   (managedNetworks s runtimeID = Some mn \<and>
    localNetworkDelete P (portCalls s) (localNetworkID mn) = Some NotFound \<longrightarrow>
      fst (DeleteNetwork P runtimeID s) = None \<and>
      managedNetworks (snd (DeleteNetwork P runtimeID s)) runtimeID = None)"
  by (simp add: DeleteNetwork_def Let_def)

theorem DeleteNetwork_idempotent_witness:
  "managedNetworks fresh ''MyAwesomeNet'' = None \<and>
   DeleteNetwork sim_ports ''MyAwesomeNet'' fresh = (None, fresh) \<and>
   managedNetworks one_network ''MyAwesomeNet'' =
     Some \<lparr>localNetworkID = ''local-1'', sourceVirtualNetwork = test_net\<rparr> \<and>
   localNetworkDelete sim_ports (portCalls one_network) ''local-1'' = Some NotFound \<and>
   fst (DeleteNetwork sim_ports ''MyAwesomeNet'' one_network) = None \<and>
   managedNetworks (snd (DeleteNetwork sim_ports ''MyAwesomeNet'' one_network)) ''MyAwesomeNet''
     = None"
proof -
  have h1: "managedNetworks fresh ''MyAwesomeNet'' = None"
    by (simp add: fresh_def)
  have h2: "managedNetworks one_network ''MyAwesomeNet'' =
     Some \<lparr>localNetworkID = ''local-1'', sourceVirtualNetwork = test_net\<rparr>"
    by (simp add: one_network_def fresh_def)
  have h3: "localNetworkDelete sim_ports (portCalls one_network) ''local-1'' = Some NotFound"
    by (simp add: sim_ports_def)
  show ?thesis
    using h1 h2 h3
      DeleteNetwork_idempotent [of fresh "''MyAwesomeNet''" sim_ports
        "\<lparr>localNetworkID = ''local-1'', sourceVirtualNetwork = test_net\<rparr>"]
      DeleteNetwork_idempotent [of one_network "''MyAwesomeNet''" sim_ports
        "\<lparr>localNetworkID = ''local-1'', sourceVirtualNetwork = test_net\<rparr>"]
    by simp
qed




end
